theory Spec2Isabelle
  imports Complex_Main "HOL-Library.AList"
begin

section \<open>Strings\<close>

text \<open>
  Python strings are modelled as \<^typ>\<open>string\<close>, one \<^typ>\<open>char\<close> per character; the
  whitespace and case functions below are those of \<^verbatim>\<open>str\<close> on ASCII text.
\<close>

definition isspace :: "char \<Rightarrow> bool" where
  "isspace c = (c \<in> set [CHR 0x09, CHR 0x0A, CHR 0x0B, CHR 0x0C, CHR 0x0D,
                          CHR 0x1C, CHR 0x1D, CHR 0x1E, CHR 0x1F, CHR 0x20])"

definition strip :: "string \<Rightarrow> string" where
  "strip s = rev (dropWhile isspace (rev (dropWhile isspace s)))"

definition lstrip_slash :: "string \<Rightarrow> string" where
  "lstrip_slash s = dropWhile (\<lambda>c. c = CHR ''/'') s"

definition rstrip_slash :: "string \<Rightarrow> string" where
  "rstrip_slash s = rev (dropWhile (\<lambda>c. c = CHR ''/'') (rev s))"

definition startswith :: "string \<Rightarrow> string \<Rightarrow> bool" where
  "startswith s p = (take (length p) s = p)"

fun contains :: "string \<Rightarrow> string \<Rightarrow> bool" where
  "contains sub [] = (sub = [])"
| "contains sub (c # cs) = (startswith (c # cs) sub \<or> contains sub cs)"

definition lower_char :: "char \<Rightarrow> char" where
  "lower_char c =
     (case map_of (zip ''ABCDEFGHIJKLMNOPQRSTUVWXYZ'' ''abcdefghijklmnopqrstuvwxyz'') c of
        Some d \<Rightarrow> d | None \<Rightarrow> c)"

definition lower :: "string \<Rightarrow> string" where
  "lower s = map lower_char s"

fun split_ws :: "string \<Rightarrow> string \<Rightarrow> string list" where
  "split_ws cur [] = (if cur = [] then [] else [cur])"
| "split_ws cur (c # cs) =
     (if isspace c then (if cur = [] then split_ws [] cs else cur # split_ws [] cs)
      else split_ws (cur @ [c]) cs)"

section \<open>Parsed documents\<close>

text \<open>
  The tree BeautifulSoup builds from a page: elements with a tag name, attributes and
  children, and text nodes. The document object itself is an element whose children are
  the top-level nodes. The search functions are those of the library, on this tree:
  \<^verbatim>\<open>find_all\<close> walks the descendants in document order, \<^verbatim>\<open>find\<close> returns the first match.
\<close>

datatype node = Element string "(string \<times> string) list" "node list" | NavText string

fun descendants :: "node \<Rightarrow> node list" where
  "descendants (NavText s) = []"
| "descendants (Element t as cs) = concat (map (\<lambda>c. c # descendants c) cs)"

fun is_tag :: "string \<Rightarrow> node \<Rightarrow> bool" where
  "is_tag name (Element t as cs) = (t = name)"
| "is_tag name (NavText s) = False"

fun attr_get :: "node \<Rightarrow> string \<Rightarrow> string option" where
  "attr_get (Element t as cs) k = map_of as k"
| "attr_get (NavText s) k = None"

definition find_all :: "(node \<Rightarrow> bool) \<Rightarrow> node \<Rightarrow> node list" where
  "find_all p n = filter p (descendants n)"

definition find_first :: "(node \<Rightarrow> bool) \<Rightarrow> node \<Rightarrow> node option" where
  "find_first p n = (case find_all p n of [] \<Rightarrow> None | x # _ \<Rightarrow> Some x)"

fun strings :: "node \<Rightarrow> string list" where
  "strings (NavText s) = [s]"
| "strings (Element t as cs) = concat (map strings cs)"

text \<open>\<^verbatim>\<open>get_text(strip=True)\<close>: every text piece is stripped, empty pieces are skipped, the
  rest is joined with the empty separator.\<close>

definition get_text_strip :: "node \<Rightarrow> string" where
  "get_text_strip n = concat (filter (\<lambda>s. s \<noteq> []) (map strip (strings n)))"

section \<open>Table extraction of \<^verbatim>\<open>do_scrape\<close> (app.py)\<close>

record table_entry =
  table_id :: nat
  headers :: "string list"
  rows :: "string list list"
  rowCount :: nat

definition row_cells :: "node \<Rightarrow> string list" where
  "row_cells tr = map get_text_strip (find_all (\<lambda>n. is_tag ''td'' n \<or> is_tag ''th'' n) tr)"

definition any_nonempty :: "string list \<Rightarrow> bool" where
  "any_nonempty cells = (\<exists>c \<in> set cells. c \<noteq> [])"

definition has_th :: "node \<Rightarrow> bool" where
  "has_th tr = (find_first (is_tag ''th'') tr \<noteq> None)"

text \<open>The loop over the \<^verbatim>\<open>tr\<close> elements of one table, with the two accumulators
  \<^verbatim>\<open>headers\<close> and \<^verbatim>\<open>rows\<close> of the source.\<close>

fun scan_rows :: "node list \<Rightarrow> string list \<Rightarrow> string list list \<Rightarrow> string list \<times> string list list" where
  "scan_rows [] hs rs = (hs, rs)"
| "scan_rows (tr # trs) hs rs =
     (let cells = row_cells tr in
      if cells \<noteq> [] \<and> any_nonempty cells then
        (if hs = [] \<and> has_th tr then scan_rows trs cells rs
         else scan_rows trs hs (rs @ [cells]))
      else scan_rows trs hs rs)"

fun tables_loop :: "nat \<Rightarrow> node list \<Rightarrow> table_entry list \<Rightarrow> table_entry list" where
  "tables_loop idx [] acc = acc"
| "tables_loop idx (tb # tbs) acc =
     (case scan_rows (find_all (is_tag ''tr'') tb) [] [] of (hs, rs) \<Rightarrow>
        tables_loop (Suc idx) tbs
          (if rs \<noteq> [] \<or> hs \<noteq> [] then
             acc @ [\<lparr>table_id = idx, headers = hs, rows = rs, rowCount = length rs\<rparr>]
           else acc))"

definition extract_tables :: "node \<Rightarrow> table_entry list" where
  "extract_tables soup = tables_loop 0 (find_all (is_tag ''table'') soup) []"


text \<open>The declarative reading of the table rules: the rows that are kept, the header
  row among them, and the remaining rows.\<close>

definition kept_rows :: "node \<Rightarrow> node list" where
  "kept_rows tb = filter (\<lambda>tr. any_nonempty (row_cells tr)) (find_all (is_tag ''tr'') tb)"

fun remove_first :: "('a \<Rightarrow> bool) \<Rightarrow> 'a list \<Rightarrow> 'a list" where
  "remove_first P [] = []"
| "remove_first P (x # xs) = (if P x then xs else x # remove_first P xs)"

definition spec_headers :: "node \<Rightarrow> string list" where
  "spec_headers tb = (case filter has_th (kept_rows tb) of [] \<Rightarrow> [] | h # _ \<Rightarrow> row_cells h)"

definition spec_rows :: "node \<Rightarrow> string list list" where
  "spec_rows tb = map row_cells (remove_first has_th (kept_rows tb))"

section \<open>Link extraction\<close>

text \<open>\<^verbatim>\<open>soup.select("a[href]")\<close>: the anchors that carry an \<^verbatim>\<open>href\<close> attribute, in
  document order.\<close>

definition select_a_href :: "node \<Rightarrow> node list" where
  "select_a_href soup = find_all (\<lambda>n. is_tag ''a'' n \<and> attr_get n ''href'' \<noteq> None) soup"

definition attr_default :: "node \<Rightarrow> string \<Rightarrow> string \<Rightarrow> string" where
  "attr_default n k d = (case attr_get n k of None \<Rightarrow> d | Some v \<Rightarrow> v)"

definition excluded_scheme :: "string \<Rightarrow> bool" where
  "excluded_scheme href =
     (startswith href ''javascript:'' \<or> startswith href ''#'' \<or> startswith href ''mailto:'')"

text \<open>The loop of \<^verbatim>\<open>do_scrape\<close> (app.py): links are pairs of text and href.\<close>

fun nav_links_app :: "string \<Rightarrow> node list \<Rightarrow> (string \<times> string) list" where
  "nav_links_app base [] = []"
| "nav_links_app base (link # ls) =
     (let href = attr_default link ''href'' []; text = get_text_strip link in
      if text \<noteq> [] \<and> href \<noteq> [] \<and> \<not> excluded_scheme href then
        (text, if \<not> startswith href ''http'' then base @ ''/'' @ lstrip_slash href else href)
          # nav_links_app base ls
      else nav_links_app base ls)"

text \<open>The loop of \<^verbatim>\<open>scrape_t18\<close> (scrape_t18.py): the same selection, the href as found.\<close>

fun nav_links_t18 :: "node list \<Rightarrow> (string \<times> string) list" where
  "nav_links_t18 [] = []"
| "nav_links_t18 (link # ls) =
     (let href = attr_default link ''href'' []; text = get_text_strip link in
      if text \<noteq> [] \<and> href \<noteq> [] \<and> \<not> excluded_scheme href then
        (text, href) # nav_links_t18 ls
      else nav_links_t18 ls)"


section \<open>The HTTP layer\<close>

text \<open>
  Exceptions are values. \<^verbatim>\<open>httpx.HTTPError\<close> is the base class of the status error, the
  timeouts, the connection errors and the redirect overflow; an invalid URL and a JSON
  decoding error are not below it.
\<close>

datatype exn_class =
    HTTPStatusError nat
  | TimeoutException
  | ConnectError
  | TooManyRedirects
  | InvalidURL
  | JSONDecodeError
  | RuntimeError
  | OSError
  | BrowserError
  | ZeroDivisionError

datatype exn = Exn exn_class string

fun str_exn :: "exn \<Rightarrow> string" where
  "str_exn (Exn c msg) = msg"

fun is_HTTPError :: "exn \<Rightarrow> bool" where
  "is_HTTPError (Exn (HTTPStatusError n) m) = True"
| "is_HTTPError (Exn TimeoutException m) = True"
| "is_HTTPError (Exn ConnectError m) = True"
| "is_HTTPError (Exn TooManyRedirects m) = True"
| "is_HTTPError (Exn c m) = False"

datatype json =
    JNull | JBool bool | JNum int | JStr string | JArr "json list" | JObj "(string \<times> json) list"

text \<open>A response body travels with the tree the HTML parser builds from it.\<close>

record page =
  body_text :: string
  soup :: node

record response =
  status_code :: nat
  body :: page
  json_body :: "json option"

datatype 'a attempt = Returns 'a | Raises exn

datatype request =
    GET string
  | POST string "(string \<times> string) list"
  | POST_JSON string "(string \<times> json) list"

text \<open>The network answers the \<open>n\<close>-th request of a session.\<close>

type_synonym network = "nat \<Rightarrow> request \<Rightarrow> response attempt"

text \<open>\<^verbatim>\<open>Response.raise_for_status\<close> of httpx: every status outside 2xx raises.\<close>

definition raise_for_status :: "response \<Rightarrow> exn + response" where
  "raise_for_status r =
     (if 200 \<le> status_code r \<and> status_code r \<le> 299 then Inr r
      else Inl (Exn (HTTPStatusError (status_code r)) ''status error''))"

definition response_json :: "response \<Rightarrow> exn + json" where
  "response_json r =
     (case json_body r of None \<Rightarrow> Inl (Exn JSONDecodeError ''invalid JSON'') | Some j \<Rightarrow> Inr j)"

datatype event = ClientCreated | Sent request | ClientClosed

record session =
  base_url :: string
  req_headers :: "(string \<times> string) list"
  timeout :: real
  client :: bool
  logged_in :: bool
  events :: "event list"

definition default_headers :: "(string \<times> string) list" where
  "default_headers = [(''User-Agent'',
     ''Mozilla/5.0 (Macintosh; Intel Mac OS X 10_15_7) AppleWebKit/537.36 (KHTML, like Gecko) Chrome/120.0.0.0 Safari/537.36'')]"

text \<open>\<^verbatim>\<open>SessionScraper.__init__\<close>; \<open>None\<close> stands for an argument left at its default.\<close>

definition SessionScraper :: "string \<Rightarrow> (string \<times> string) list option \<Rightarrow> real option \<Rightarrow> session" where
  "SessionScraper url hdrs tmo =
     \<lparr>base_url = rstrip_slash url,
      req_headers = (case hdrs of None \<Rightarrow> default_headers
                     | Some h \<Rightarrow> if h = [] then default_headers else h),
      timeout = (case tmo of None \<Rightarrow> 30 | Some t \<Rightarrow> t),
      client = False, logged_in = False, events = []\<rparr>"

definition get_client :: "session \<Rightarrow> session" where
  "get_client s = (if client s then s else s\<lparr>client := True, events := events s @ [ClientCreated]\<rparr>)"

definition requests_sent :: "session \<Rightarrow> nat" where
  "requests_sent s = length (filter (\<lambda>e. case e of Sent r \<Rightarrow> True | _ \<Rightarrow> False) (events s))"

text \<open>One call of the client: the request is recorded and the network answers it.\<close>

definition send :: "network \<Rightarrow> request \<Rightarrow> session \<Rightarrow> response attempt \<times> session" where
  "send net rq s = (net (requests_sent s) rq, s\<lparr>events := events s @ [Sent rq]\<rparr>)"

text \<open>The \<^verbatim>\<open>try\<close> blocks of the fetch operations: what the \<^verbatim>\<open>except httpx.HTTPError\<close>
  clause does with the outcome of the request and of \<^verbatim>\<open>raise_for_status\<close>.\<close>

definition text_or_none :: "response attempt \<Rightarrow> exn + page option" where
  "text_or_none a =
     (case a of
        Raises e \<Rightarrow> if is_HTTPError e then Inr None else Inl e
      | Returns r \<Rightarrow>
          (case raise_for_status r of
             Inl e \<Rightarrow> if is_HTTPError e then Inr None else Inl e
           | Inr r' \<Rightarrow> Inr (Some (body r'))))"

definition session_url :: "session \<Rightarrow> string \<Rightarrow> string" where
  "session_url s path = base_url s @ ''/'' @ lstrip_slash path"

definition get :: "network \<Rightarrow> string \<Rightarrow> session \<Rightarrow> (exn + page option) \<times> session" where
  "get net path s =
     (let s1 = get_client s;
          url = (if path \<noteq> [] then session_url s1 path else base_url s1);
          (a, s2) = send net (GET url) s1
      in (text_or_none a, s2))"

definition post :: "network \<Rightarrow> string \<Rightarrow> (string \<times> string) list \<Rightarrow> session \<Rightarrow> (exn + page option) \<times> session" where
  "post net path form_data s =
     (let s1 = get_client s;
          (a, s2) = send net (POST (session_url s1 path) form_data) s1
      in (text_or_none a, s2))"

text \<open>The JSON variants of the session client have a second clause,
  \<^verbatim>\<open>except Exception\<close>, so nothing escapes them.\<close>

definition json_or_none_all :: "response attempt \<Rightarrow> exn + json option" where
  "json_or_none_all a =
     (case a of
        Raises e \<Rightarrow> Inr None
      | Returns r \<Rightarrow>
          (case raise_for_status r of
             Inl e \<Rightarrow> Inr None
           | Inr r' \<Rightarrow> (case response_json r' of Inl e \<Rightarrow> Inr None | Inr j \<Rightarrow> Inr (Some j))))"

definition json_post :: "network \<Rightarrow> string \<Rightarrow> (string \<times> json) list \<Rightarrow> session \<Rightarrow> (exn + json option) \<times> session" where
  "json_post net path json_data s =
     (let s1 = get_client s;
          (a, s2) = send net (POST_JSON (session_url s1 path) json_data) s1
      in (json_or_none_all a, s2))"

definition form_post_json :: "network \<Rightarrow> string \<Rightarrow> (string \<times> string) list \<Rightarrow> session \<Rightarrow> (exn + json option) \<times> session" where
  "form_post_json net path form_data s =
     (let s1 = get_client s;
          (a, s2) = send net (POST (session_url s1 path) form_data) s1
      in (json_or_none_all a, s2))"

definition close :: "session \<Rightarrow> session" where
  "close s = (if client s then s\<lparr>client := False, events := events s @ [ClientClosed]\<rparr> else s)"

subsection \<open>The base scraper (base.py)\<close>

text \<open>\<^verbatim>\<open>WebScraper.fetch\<close> and \<^verbatim>\<open>fetch_json\<close> take the outcome of the one request they
  make; both have the single clause \<^verbatim>\<open>except httpx.HTTPError\<close>.\<close>

definition fetch :: "response attempt \<Rightarrow> exn + page option" where
  "fetch a = text_or_none a"

definition fetch_json :: "response attempt \<Rightarrow> exn + json option" where
  "fetch_json a =
     (case a of
        Raises e \<Rightarrow> if is_HTTPError e then Inr None else Inl e
      | Returns r \<Rightarrow>
          (case raise_for_status r of
             Inl e \<Rightarrow> if is_HTTPError e then Inr None else Inl e
           | Inr r' \<Rightarrow>
               (case response_json r' of
                  Inl e \<Rightarrow> if is_HTTPError e then Inr None else Inl e
                | Inr j \<Rightarrow> Inr (Some j))))"


section \<open>Login through the session client (session\_scraper.py)\<close>

text \<open>How BeautifulSoup matches the attribute filters used by the login checks. The
  \<^verbatim>\<open>class\<close> attribute is a list of tokens: a filter is tried on every token and then
  on the tokens joined by one space.\<close>

fun join_sp :: "string list \<Rightarrow> string" where
  "join_sp [] = []"
| "join_sp [x] = x"
| "join_sp (x # y # ys) = x @ '' '' @ join_sp (y # ys)"

definition class_tokens :: "node \<Rightarrow> string list option" where
  "class_tokens n = map_option (split_ws []) (attr_get n ''class'')"

definition mentions_error :: "string \<Rightarrow> bool" where
  "mentions_error x = (x \<noteq> [] \<and> contains ''error'' (lower x))"

definition class_matches :: "(string \<Rightarrow> bool) \<Rightarrow> node \<Rightarrow> bool" where
  "class_matches f n =
     (case class_tokens n of
        None \<Rightarrow> False
      | Some toks \<Rightarrow> (\<exists>t \<in> set toks. f t) \<or> f (join_sp toks))"

definition id_matches :: "(string \<Rightarrow> bool) \<Rightarrow> node \<Rightarrow> bool" where
  "id_matches f n = (case attr_get n ''id'' of None \<Rightarrow> False | Some v \<Rightarrow> f v)"

fun is_element :: "node \<Rightarrow> bool" where
  "is_element (Element t as cs) = True"
| "is_element (NavText s) = False"

definition find_login_form :: "node \<Rightarrow> node option" where
  "find_login_form sp =
     (case find_first (\<lambda>n. is_tag ''form'' n \<and> attr_get n ''id'' = Some ''loginForm'') sp of
        Some f \<Rightarrow> Some f
      | None \<Rightarrow> find_first (\<lambda>n. is_tag ''input'' n \<and> attr_get n ''type'' = Some ''password'') sp)"

definition find_error_class :: "node \<Rightarrow> node option" where
  "find_error_class sp = find_first (\<lambda>n. is_element n \<and> class_matches mentions_error n) sp"

text \<open>The \<^verbatim>\<open>form_data\<close> dictionary: the two credential fields, then the extra fields
  written over them.\<close>

definition dict_update :: "('k \<times> 'v) list \<Rightarrow> ('k \<times> 'v) list \<Rightarrow> ('k \<times> 'v) list" where
  "dict_update d upd = foldl (\<lambda>acc (k, v). AList.update k v acc) d upd"

definition login_form_data ::
  "string \<Rightarrow> string \<Rightarrow> string \<Rightarrow> string \<Rightarrow> (string \<times> string) list option \<Rightarrow> (string \<times> string) list" where
  "login_form_data username password username_field password_field extra_fields =
     (let form_data = AList.update password_field password (AList.update username_field username [])
      in case extra_fields of
           None \<Rightarrow> form_data
         | Some ex \<Rightarrow> if ex \<noteq> [] then dict_update form_data ex else form_data)"

definition login ::
  "network \<Rightarrow> string \<Rightarrow> string \<Rightarrow> string \<Rightarrow> string \<Rightarrow> string \<Rightarrow> (string \<times> string) list option
     \<Rightarrow> session \<Rightarrow> (exn + bool) \<times> session" where
  "login net login_path username password username_field password_field extra_fields s =
     (let form_data = login_form_data username password username_field password_field extra_fields;
          (result, s1) = post net login_path form_data s
      in case result of
           Inl e \<Rightarrow> (Inl e, s1)
         | Inr None \<Rightarrow> (Inr False, s1)
         | Inr (Some pg) \<Rightarrow>
             if body_text pg \<noteq> [] then
               (let login_form = find_login_form (soup pg);
                    error_msg = find_error_class (soup pg)
                in if login_form = None \<and> error_msg = None
                   then (Inr True, s1\<lparr>logged_in := True\<rparr>)
                   else (Inr False, s1))
             else (Inr False, s1))"

record login_details =
  success :: bool
  error :: "string option"

text \<open>The list \<^verbatim>\<open>error_selectors\<close> of \<^verbatim>\<open>login_with_details\<close>, in its order.\<close>

definition error_selectors :: "node \<Rightarrow> node option list" where
  "error_selectors sp =
     [find_first (\<lambda>n. is_element n \<and> class_matches mentions_error n) sp,
      find_first (\<lambda>n. is_element n \<and> id_matches mentions_error n) sp,
      find_first (\<lambda>n. is_tag ''div'' n \<and> class_matches (\<lambda>t. t = ''alert'') n) sp,
      find_first (\<lambda>n. is_tag ''span'' n \<and> class_matches (\<lambda>t. t = ''error'') n) sp,
      find_first (\<lambda>n. is_tag ''p'' n \<and> class_matches (\<lambda>t. t = ''error'') n) sp]"

fun first_error_text :: "node option list \<Rightarrow> string option" where
  "first_error_text [] = None"
| "first_error_text (None # es) = first_error_text es"
| "first_error_text (Some elem # es) = Some (get_text_strip elem)"

definition generic_login_error :: string where
  "generic_login_error = ''Login failed - invalid credentials or session error''"

definition login_with_details ::
  "network \<Rightarrow> string \<Rightarrow> string \<Rightarrow> string \<Rightarrow> string \<Rightarrow> string \<Rightarrow> (string \<times> string) list option
     \<Rightarrow> session \<Rightarrow> (exn + login_details) \<times> session" where
  "login_with_details net login_path username password username_field password_field extra_fields s =
     (let form_data = login_form_data username password username_field password_field extra_fields;
          (result, s1) = post net login_path form_data s
      in case result of
           Inl e \<Rightarrow> (Inl e, s1)
         | Inr None \<Rightarrow> (Inr \<lparr>success = False, error = Some ''No response from server''\<rparr>, s1)
         | Inr (Some pg) \<Rightarrow>
             if body_text pg \<noteq> [] then
               (let error_msg = first_error_text (error_selectors (soup pg));
                    login_form = find_login_form (soup pg)
                in if login_form = None \<and> error_msg = None
                   then (Inr \<lparr>success = True, error = None\<rparr>, s1\<lparr>logged_in := True\<rparr>)
                   else (Inr \<lparr>success = False,
                              error = Some (case error_msg of
                                              None \<Rightarrow> generic_login_error
                                            | Some m \<Rightarrow> if m \<noteq> [] then m else generic_login_error)\<rparr>,
                         s1))
             else (Inr \<lparr>success = False, error = Some ''No response from server''\<rparr>, s1))"

subsection \<open>The login form resolver\<close>

record form_fields =
  form_action :: string
  form_method :: string
  fields_map :: "(string \<times> (string \<times> string)) list"
  hidden_fields :: "(string \<times> string) list"

text \<open>The loop over the \<^verbatim>\<open>input\<close> elements of the form; an entry of \<^verbatim>\<open>fields\<close> (here \<open>fields_map\<close>) is stored
  as the pair of its type and its value.\<close>

fun collect_inputs :: "node list \<Rightarrow> form_fields \<Rightarrow> form_fields" where
  "collect_inputs [] ff = ff"
| "collect_inputs (inp # inps) ff =
     (case attr_get inp ''name'' of
        None \<Rightarrow> collect_inputs inps ff
      | Some name \<Rightarrow>
          if name = [] then collect_inputs inps ff
          else
            (let input_type = attr_default inp ''type'' ''text'';
                 v = attr_default inp ''value'' []
             in if input_type = ''hidden''
                then collect_inputs inps (ff\<lparr>hidden_fields := AList.update name v (hidden_fields ff)\<rparr>)
                else collect_inputs inps (ff\<lparr>fields_map := AList.update name (input_type, v) (fields_map ff)\<rparr>)))"

text \<open>\<^verbatim>\<open>get_login_form_fields\<close>; the empty dictionary it returns when there is no page
  or no form is \<open>None\<close>.\<close>

definition get_login_form_fields :: "network \<Rightarrow> string \<Rightarrow> session \<Rightarrow> (exn + form_fields option) \<times> session" where
  "get_login_form_fields net login_page_path s =
     (let (html, s1) = get net login_page_path s
      in case html of
           Inl e \<Rightarrow> (Inl e, s1)
         | Inr None \<Rightarrow> (Inr None, s1)
         | Inr (Some pg) \<Rightarrow>
             if body_text pg = [] then (Inr None, s1)
             else
               (case find_first (is_tag ''form'') (soup pg) of
                  None \<Rightarrow> (Inr None, s1)
                | Some form \<Rightarrow>
                    (Inr (Some (collect_inputs (find_all (is_tag ''input'') form)
                       \<lparr>form_action = attr_default form ''action'' [],
                        form_method = attr_default form ''method'' ''POST'',
                        fields_map = [], hidden_fields = []\<rparr>)), s1)))"

text \<open>The declarative reading of the resolver: the named inputs of a form, and the last
  of them under a given name on either side.\<close>

definition is_named :: "node \<Rightarrow> bool" where
  "is_named i = (case attr_get i ''name'' of None \<Rightarrow> False | Some n \<Rightarrow> n \<noteq> [])"

definition named_inputs :: "node \<Rightarrow> node list" where
  "named_inputs form = filter is_named (find_all (is_tag ''input'') form)"

definition declared_type :: "node \<Rightarrow> string" where
  "declared_type i = attr_default i ''type'' ''text''"

definition last_named :: "(node \<Rightarrow> bool) \<Rightarrow> string \<Rightarrow> node \<Rightarrow> node option" where
  "last_named side name form =
     (case filter (\<lambda>i. side i \<and> attr_get i ''name'' = Some name) (named_inputs form) of
        [] \<Rightarrow> None
      | x # xs \<Rightarrow> Some (last (x # xs)))"

section \<open>Example inputs\<close>

text \<open>A page with two tables: the rows \<open>["", ""]\<close> and \<open>["A", "B"]\<close> without header cells,
  and a table with a blank row, a header row and one data row.\<close>

definition tables_example :: node where
  "tables_example = Element ''[document]'' []
     [Element ''table'' []
        [Element ''tr'' [] [Element ''td'' [] [NavText '' ''], Element ''td'' [] []],
         Element ''tr'' [] [Element ''td'' [] [NavText ''A''], Element ''td'' [] [NavText ''B'']]],
      Element ''table'' []
        [Element ''tr'' [] [Element ''th'' [] [NavText ''  '']],
         Element ''tr'' [] [Element ''th'' [] [NavText ''Name''], Element ''th'' [] [NavText '' Qty '']],
         Element ''tr'' [] [Element ''td'' [] [NavText ''bolt''], Element ''td'' [] [NavText ''7'']]]]"

section \<open>Readings of the fetch layer's failures\<close>

text \<open>An HTTP-level failure of one request: an exception below \<^verbatim>\<open>httpx.HTTPError\<close>
  (connection error, timeout, redirect overflow) or a response that
  \<^verbatim>\<open>raise_for_status\<close> rejects.\<close>

definition http_failure :: "response attempt \<Rightarrow> bool" where
  "http_failure a =
     (case a of
        Raises e \<Rightarrow> is_HTTPError e
      | Returns r \<Rightarrow> \<not> (200 \<le> status_code r \<and> status_code r \<le> 299))"

text \<open>A response whose status is neither 2xx nor 3xx, and a timeout.\<close>

definition error_status :: "response attempt \<Rightarrow> bool" where
  "error_status a = (case a of Raises e \<Rightarrow> False
     | Returns r \<Rightarrow> status_code r < 200 \<or> 400 \<le> status_code r)"

definition timed_out :: "response attempt \<Rightarrow> bool" where
  "timed_out a = (case a of Raises (Exn TimeoutException m) \<Rightarrow> True | _ \<Rightarrow> False)"

definition empty_page :: page where
  "empty_page = \<lparr>body_text = [], soup = Element ''[document]'' [] []\<rparr>"

definition not_found :: response where
  "not_found = \<lparr>status_code = 404, body = empty_page, json_body = None\<rparr>"

definition site :: session where
  "site = SessionScraper ''https://site.example/app/'' None None"

text \<open>A login page: a form with a user field, a password field, a hidden token and an
  unnamed submit button.\<close>

definition login_form_example :: node where
  "login_form_example = Element ''form'' [(''action'', ''j_security_check''), (''method'', ''post'')]
     [Element ''input'' [(''name'', ''j_username'')] [],
      Element ''input'' [(''type'', ''password''), (''name'', ''j_password'')] [],
      Element ''input'' [(''type'', ''hidden''), (''name'', ''csrf''), (''value'', ''tok123'')] [],
      Element ''input'' [(''type'', ''submit''), (''value'', ''Login'')] []]"

definition login_page_example :: page where
  "login_page_example =
     \<lparr>body_text = ''<form action=j_security_check>...</form>'',
      soup = Element ''[document]'' [] [Element ''html'' [] [Element ''body'' [] [login_form_example]]]\<rparr>"

definition serve :: "page \<Rightarrow> network" where
  "serve pg = (\<lambda>n rq. Returns \<lparr>status_code = 200, body = pg, json_body = None\<rparr>)"

text \<open>The declarative reading of the link rules: which anchors are kept, and what
  \<^verbatim>\<open>do_scrape\<close> records as their target.\<close>

definition link_selected :: "node \<Rightarrow> bool" where
  "link_selected l =
     (get_text_strip l \<noteq> [] \<and> attr_default l ''href'' [] \<noteq> [] \<and>
      \<not> startswith (attr_default l ''href'' []) ''javascript:'' \<and>
      \<not> startswith (attr_default l ''href'' []) ''#'' \<and>
      \<not> startswith (attr_default l ''href'' []) ''mailto:'')"

definition app_href :: "string \<Rightarrow> string \<Rightarrow> string" where
  "app_href base href = (if startswith href ''http'' then href else base @ ''/'' @ lstrip_slash href)"

definition anchor :: "string \<Rightarrow> string \<Rightarrow> node" where
  "anchor href label = Element ''a'' [(''href'', href)] [NavText label]"

definition links_example :: node where
  "links_example = Element ''[document]'' []
     [anchor ''/about'' ''About'', anchor ''https://other.example/x'' ''Other'',
      anchor ''javascript:void(0)'' ''Menu'', anchor ''#top'' ''Top'',
      anchor ''mailto:ops@site.example'' ''Mail'', anchor ''/empty'' ''  '']"

text \<open>The declarative reading of the login indicators.\<close>

definition has_password_input :: "node \<Rightarrow> bool" where
  "has_password_input sp =
     (\<exists>n \<in> set (descendants sp). is_tag ''input'' n \<and> attr_get n ''type'' = Some ''password'')"

definition has_login_form_id :: "node \<Rightarrow> bool" where
  "has_login_form_id sp =
     (\<exists>n \<in> set (descendants sp). is_tag ''form'' n \<and> attr_get n ''id'' = Some ''loginForm'')"

definition has_error_class :: "node \<Rightarrow> bool" where
  "has_error_class sp =
     (\<exists>n \<in> set (descendants sp). is_element n \<and> class_matches mentions_error n)"

definition has_error_element :: "node \<Rightarrow> bool" where
  "has_error_element sp =
     (\<exists>n \<in> set (descendants sp).
        (is_element n \<and> class_matches mentions_error n) \<or>
        (is_element n \<and> id_matches mentions_error n) \<or>
        (is_tag ''div'' n \<and> class_matches (\<lambda>t. t = ''alert'') n) \<or>
        (is_tag ''span'' n \<and> class_matches (\<lambda>t. t = ''error'') n) \<or>
        (is_tag ''p'' n \<and> class_matches (\<lambda>t. t = ''error'') n))"

definition failure_message :: "node \<Rightarrow> string" where
  "failure_message sp =
     (case first_error_text (error_selectors sp) of
        None \<Rightarrow> generic_login_error
      | Some m \<Rightarrow> if m \<noteq> [] then m else generic_login_error)"

text \<open>Response pages of a login: one that still shows the password field, one with an
  error box, one that keeps a form with the id \<open>loginForm\<close> but no password field, and a
  dashboard.\<close>

definition password_page :: page where
  "password_page = \<lparr>body_text = ''<input type=password>'',
     soup = Element ''[document]'' [] [Element ''input'' [(''type'', ''password'')] []]\<rparr>"

definition error_page :: page where
  "error_page = \<lparr>body_text = ''<div class=login-Error> Bad password </div>'',
     soup = Element ''[document]'' []
       [Element ''div'' [(''class'', ''box login-Error'')] [NavText '' Bad password '']]\<rparr>"

definition login_form_id_page :: page where
  "login_form_id_page = \<lparr>body_text = ''<form id=loginForm></form>'',
     soup = Element ''[document]'' [] [Element ''form'' [(''id'', ''loginForm'')] []]\<rparr>"

definition dashboard_page :: page where
  "dashboard_page = \<lparr>body_text = ''<h1>Welcome</h1>'',
     soup = Element ''[document]'' [] [Element ''h1'' [] [NavText ''Welcome'']]\<rparr>"

section \<open>The rate limiter (rate\_limiter.py)\<close>

text \<open>
  The token bucket over the reals. The values of \<^verbatim>\<open>time.monotonic()\<close> are inputs: the
  waiting loop takes the readings of its successive attempts, the sleep between two
  attempts being whatever separates two readings, and returns \<open>None\<close> when the readings
  end before a token was there.
\<close>

record limiter =
  rate :: real
  burst :: real
  tokens :: real
  last_update :: real

definition RateLimiter :: "real \<Rightarrow> int \<Rightarrow> real \<Rightarrow> limiter" where
  "RateLimiter requests_per_second b now =
     \<lparr>rate = requests_per_second, burst = of_int b, tokens = of_int b, last_update = now\<rparr>"

definition refill_tokens :: "real \<Rightarrow> limiter \<Rightarrow> limiter" where
  "refill_tokens now l =
     (let elapsed = now - last_update l
      in l\<lparr>last_update := now, tokens := min (burst l) (tokens l + elapsed * rate l)\<rparr>)"

fun wait_for_token :: "real list \<Rightarrow> limiter \<Rightarrow> (exn + limiter) option" where
  "wait_for_token [] l = None"
| "wait_for_token (now # ts) l =
     (let l1 = refill_tokens now l in
      if 1 \<le> tokens l1 then Some (Inr (l1\<lparr>tokens := tokens l1 - 1\<rparr>))
      else if rate l1 = 0 then Some (Inl (Exn ZeroDivisionError ''float division by zero''))
      else wait_for_token ts l1)"

definition acquire :: "real list \<Rightarrow> limiter \<Rightarrow> (exn + limiter) option" where
  "acquire ts l = wait_for_token ts l"

text \<open>The bucket after the refills of a sequence of attempts.\<close>

fun refills :: "real list \<Rightarrow> limiter \<Rightarrow> limiter" where
  "refills [] l = l"
| "refills (t # ts) l = refills ts (refill_tokens t l)"

section \<open>The parser (html\_parser.py)\<close>

definition get_title :: "node \<Rightarrow> string option" where
  "get_title sp = map_option get_text_strip (find_first (is_tag ''title'') sp)"

definition get_meta_description :: "node \<Rightarrow> string option" where
  "get_meta_description sp =
     (case find_first (\<lambda>n. is_tag ''meta'' n \<and> attr_get n ''name'' = Some ''description'') sp of
        None \<Rightarrow> None
      | Some meta \<Rightarrow> attr_get meta ''content'')"

definition get_links :: "node \<Rightarrow> (string \<times> string) list" where
  "get_links sp =
     map (\<lambda>a. (attr_default a ''href'' [], get_text_strip a))
       (find_all (\<lambda>n. is_tag ''a'' n \<and> attr_get n ''href'' \<noteq> None) sp)"

fun headings_loop :: "string list \<Rightarrow> node \<Rightarrow> (string \<times> string list) list" where
  "headings_loop [] sp = []"
| "headings_loop (tag_name # rest) sp =
     (let found = find_all (is_tag tag_name) sp in
      if found \<noteq> [] then (tag_name, map get_text_strip found) # headings_loop rest sp
      else headings_loop rest sp)"

definition get_headings :: "node \<Rightarrow> (string \<times> string list) list" where
  "get_headings sp = headings_loop [''h1'', ''h2'', ''h3'', ''h4'', ''h5'', ''h6''] sp"

record parsed =
  p_title :: "string option"
  p_meta_description :: "string option"
  p_links :: "(string \<times> string) list"
  p_headings :: "(string \<times> string list) list"

definition parse :: "page \<Rightarrow> parsed" where
  "parse html =
     \<lparr>p_title = get_title (soup html),
      p_meta_description = get_meta_description (soup html),
      p_links = get_links (soup html),
      p_headings = get_headings (soup html)\<rparr>"

section \<open>The orchestrator of app.py\<close>

datatype log_type = Info | Success | Error

type_synonym log_entry = "log_type \<times> string"

fun str_nat :: "nat \<Rightarrow> string" where
  "str_nat n = (if n < 10 then [''0123456789'' ! n]
                else str_nat (n div 10) @ [''0123456789'' ! (n mod 10)])"

declare str_nat.simps [simp del]

text \<open>The \<^verbatim>\<open>data\<close> entry of the result; \<open>meta_description\<close> is only written by a complete
  run.\<close>

record scrape_data =
  d_title :: "string option"
  d_links :: "(string \<times> string) list"
  d_tables :: "table_entry list"
  d_headings :: "(string \<times> string list) list"
  d_meta_description :: "string option"

record run =
  scraper :: session
  logs :: "log_entry list"
  run_success :: bool
  run_data :: scrape_data

definition log :: "log_type \<Rightarrow> string \<Rightarrow> run \<Rightarrow> run" where
  "log ty msg r = r\<lparr>logs := logs r @ [(ty, msg)]\<rparr>"

definition t18_base_url :: string where
  "t18_base_url = ''https://t18.tideworks.com/fc-T18''"

text \<open>\<^verbatim>\<open>form_info.get("hidden_fields", {})\<close> and
  \<^verbatim>\<open>form_info.get("action") or "j_security_check"\<close>.\<close>

definition form_hidden_fields :: "form_fields option \<Rightarrow> (string \<times> string) list" where
  "form_hidden_fields form_info = (case form_info of None \<Rightarrow> [] | Some ff \<Rightarrow> hidden_fields ff)"

definition form_login_path :: "form_fields option \<Rightarrow> string" where
  "form_login_path form_info =
     (case form_info of
        None \<Rightarrow> ''j_security_check''
      | Some ff \<Rightarrow> if form_action ff \<noteq> [] then form_action ff else ''j_security_check'')"

text \<open>The part of the \<^verbatim>\<open>try\<close> block after a successful login. The first component of
  the result is the exception that leaves the block, if any; \<open>storage\<close> is what
  \<^verbatim>\<open>storage.save\<close> raises, if anything.\<close>

definition fetch_dashboard :: "network \<Rightarrow> exn option \<Rightarrow> run \<Rightarrow> exn option \<times> run" where
  "fetch_dashboard net storage r0 =
     (let r1 = log Info ''Fetching dashboard...'' (log Success ''Login successful!'' r0);
          (dashboard_html, s1) = get net ''default.do'' (scraper r1);
          r2 = r1\<lparr>scraper := s1\<rparr>
      in case dashboard_html of
           Inl e \<Rightarrow> (Some e, r2)
         | Inr None \<Rightarrow> (None, log Error ''Failed to fetch dashboard.'' r2)
         | Inr (Some pg) \<Rightarrow>
             if body_text pg = [] then (None, log Error ''Failed to fetch dashboard.'' r2)
             else
               (let r3 = log Info ''Parsing page content...'' r2;
                    data = parse pg;
                    nav_links = nav_links_app t18_base_url (select_a_href (soup pg));
                    table_data = extract_tables (soup pg)
                in case storage of
                     Some e \<Rightarrow> (Some e, r3)
                   | None \<Rightarrow>
                       (None,
                        (log Success ''Scraping complete!''
                          (log Info (''Found '' @ str_nat (length nav_links) @ '' links and '' @
                                       str_nat (length table_data) @ '' tables'')
                            (log Success ''Data saved to data/t18_data.json'' r3)))
                        \<lparr>run_success := True,
                         run_data := \<lparr>d_title = p_title data, d_links = nav_links,
                                      d_tables = table_data, d_headings = p_headings data,
                                      d_meta_description = p_meta_description data\<rparr>\<rparr>)))"

definition do_scrape_try :: "network \<Rightarrow> exn option \<Rightarrow> string \<Rightarrow> string \<Rightarrow> run \<Rightarrow> exn option \<times> run" where
  "do_scrape_try net storage username password r0 =
     (let r1 = log Info ''Connecting to T18 Tideworks...'' r0;
          (form_info, s1) = get_login_form_fields net ''default.do'' (scraper r1);
          r2 = r1\<lparr>scraper := s1\<rparr>
      in case form_info of
           Inl e \<Rightarrow> (Some e, r2)
         | Inr fi \<Rightarrow>
             (let r3 = log Info (''Logging in as '' @ username @ ''...'')
                         (log Success ''Found login form'' r2);
                  extra_fields = form_hidden_fields fi;
                  (login_success, s2) =
                     login net (form_login_path fi) username password
                       ''j_username'' ''j_password'' (Some extra_fields) (scraper r3);
                  r4 = r3\<lparr>scraper := s2\<rparr>
              in case login_success of
                   Inl e \<Rightarrow> (Some e, r4)
                 | Inr ok \<Rightarrow>
                     if \<not> ok then (None, log Error ''Login failed. Check your credentials.'' r4)
                     else fetch_dashboard net storage r4))"

definition initial_data :: scrape_data where
  "initial_data = \<lparr>d_title = None, d_links = [], d_tables = [], d_headings = [],
                    d_meta_description = None\<rparr>"

text \<open>\<^verbatim>\<open>do_scrape\<close>: the \<^verbatim>\<open>try\<close> block, the \<^verbatim>\<open>except Exception\<close> clause and the
  \<^verbatim>\<open>finally\<close> clause. The run that is returned carries the scraper as \<^verbatim>\<open>close\<close> left it.\<close>

definition do_scrape :: "network \<Rightarrow> exn option \<Rightarrow> string \<Rightarrow> string \<Rightarrow> run" where
  "do_scrape net storage username password =
     (let r0 = \<lparr>scraper = SessionScraper t18_base_url None None, logs = [],
                 run_success = False, run_data = initial_data\<rparr>;
          (raised, r1) = do_scrape_try net storage username password r0;
          r2 = (case raised of None \<Rightarrow> r1 | Some e \<Rightarrow> log Error (''Error: '' @ str_exn e) r1)
      in r2\<lparr>scraper := close (scraper r2)\<rparr>)"

text \<open>The outcome of the login step of a run of \<^verbatim>\<open>do_scrape\<close>.\<close>

definition do_scrape_login :: "network \<Rightarrow> string \<Rightarrow> string \<Rightarrow> exn + bool" where
  "do_scrape_login net username password =
     (let (form_info, s1) = get_login_form_fields net ''default.do''
                              (SessionScraper t18_base_url None None)
      in case form_info of
           Inl e \<Rightarrow> Inl e
         | Inr fi \<Rightarrow>
             fst (login net (form_login_path fi) username password
                    ''j_username'' ''j_password'' (Some (form_hidden_fields fi)) s1))"

definition error_entries :: "log_entry list \<Rightarrow> log_entry list" where
  "error_entries ls = filter (\<lambda>e. fst e = Error) ls"

fun is_post :: "event \<Rightarrow> bool" where
  "is_post (Sent (POST url d)) = True"
| "is_post e = False"

fun is_get :: "event \<Rightarrow> bool" where
  "is_get (Sent (GET url)) = True"
| "is_get e = False"

section \<open>The ETSLink scraper (scrape\_etslink.py)\<close>

definition upper_char :: "char \<Rightarrow> char" where
  "upper_char c =
     (case map_of (zip ''abcdefghijklmnopqrstuvwxyz'' ''ABCDEFGHIJKLMNOPQRSTUVWXYZ'') c of
        Some d \<Rightarrow> d | None \<Rightarrow> c)"

definition upper :: "string \<Rightarrow> string" where
  "upper s = map upper_char s"

text \<open>The table \<^verbatim>\<open>ETSLINK_LOCATIONS\<close>: code, name and base URL.\<close>

definition ETSLINK_LOCATIONS :: "(string \<times> (string \<times> string)) list" where
  "ETSLINK_LOCATIONS =
     [(''LAX'', (''Los Angeles'', ''https://www.etslink.com'')),
      (''OAK'', (''Oakland'', ''https://www.etslink.com'')),
      (''TIW'', (''Tacoma'', ''https://www.etslink.com''))]"

text \<open>The scraper object: whether it is logged in and which of its four browser
  handles are held.\<close>

record ets =
  ets_logged_in :: bool
  playwright :: bool
  browser :: bool
  browser_context :: bool
  browser_page :: bool

definition ETSLinkScraper :: ets where
  "ETSLinkScraper = \<lparr>ets_logged_in = False, playwright = False, browser = False,
                      browser_context = False, browser_page = False\<rparr>"

text \<open>
  What the browser does during \<^verbatim>\<open>login\<close>: Playwright is not installed; or an exception
  is raised after the first \<open>n\<close> handles were obtained; or the script runs through and
  observes the final URL, the text of an error element if there is one, and whether a
  password field is still visible.
\<close>

datatype login_world =
    PlaywrightMissing
  | LoginRaises nat exn
  | LoginPage string "string option" bool

definition acquire_handles :: "nat \<Rightarrow> ets \<Rightarrow> ets" where
  "acquire_handles n s =
     s\<lparr>playwright := playwright s \<or> 1 \<le> n, browser := browser s \<or> 2 \<le> n,
       browser_context := browser_context s \<or> 3 \<le> n, browser_page := browser_page s \<or> 4 \<le> n\<rparr>"

definition ets_login :: "login_world \<Rightarrow> ets \<Rightarrow> (bool \<times> string) \<times> ets" where
  "ets_login lw s =
     (case lw of
        PlaywrightMissing \<Rightarrow>
          ((False, ''Playwright not installed. Run: pip install playwright && playwright install chromium''), s)
      | LoginRaises n e \<Rightarrow> ((False, ''Browser error: '' @ str_exn e), acquire_handles n s)
      | LoginPage url error_text pwd_visible \<Rightarrow>
          (let s1 = acquire_handles 4 s in
           if contains ''main'' (lower url) \<or> contains ''home'' (lower url)
           then ((True, []), s1\<lparr>ets_logged_in := True\<rparr>)
           else
             (case error_text of
                Some t \<Rightarrow> ((False, if strip t \<noteq> [] then strip t else ''Login failed''), s1)
              | None \<Rightarrow>
                  if pwd_visible
                  then ((False, ''Login failed - invalid credentials or CAPTCHA required''), s1)
                  else ((True, []), s1\<lparr>ets_logged_in := True\<rparr>))))"

type_synonym obj = "(string \<times> json) list"

text \<open>What the browser does during one \<^verbatim>\<open>scrape_location\<close>: an exception before the
  loop over the frames, if any; for every iframe its id and what happens inside the
  \<^verbatim>\<open>try\<close> block of the loop; and what happens after the loop.\<close>

datatype frame_outcome =
    FrameRaises exn
  | FrameHidden
  | NoContentFrame
  | Evaluated "(obj list \<times> obj list) option"

record frame_world =
  frame_id :: "string option"
  outcome :: frame_outcome

datatype after_frames = TitleRaises exn | ScreenshotRaises exn | Completed

record location_world =
  before_frames :: "exn option"
  frames :: "frame_world list"
  page_url :: string
  page_title :: string
  finish :: after_frames

record loc_result =
  loc_name :: string
  loc_code :: string
  loc_data :: obj
  loc_tables :: "obj list"
  loc_links :: "obj list"
  loc_grids :: "obj list"
  loc_error :: "string option"

datatype loc_data = UnknownLocation string | LocResult loc_result

definition iframe_id_of :: "frame_world \<Rightarrow> string" where
  "iframe_id_of f = (case frame_id f of None \<Rightarrow> ''unknown''
                     | Some i \<Rightarrow> if i \<noteq> [] then i else ''unknown'')"

definition tag_source :: "string \<Rightarrow> obj \<Rightarrow> obj" where
  "tag_source iframe_id g = AList.update ''source_iframe'' (JStr iframe_id) g"

text \<open>The loop over the iframes: hidden frames and frames without content are skipped,
  an exception inside the \<^verbatim>\<open>try\<close> block is caught and the loop continues.\<close>

fun frames_loop :: "frame_world list \<Rightarrow> loc_result \<Rightarrow> loc_result" where
  "frames_loop [] result = result"
| "frames_loop (f # fs) result =
     (case outcome f of
        FrameRaises frame_error \<Rightarrow> frames_loop fs result
      | FrameHidden \<Rightarrow> frames_loop fs result
      | NoContentFrame \<Rightarrow> frames_loop fs result
      | Evaluated None \<Rightarrow> frames_loop fs result
      | Evaluated (Some (frame_grids, frame_tables)) \<Rightarrow>
          frames_loop fs
            (result\<lparr>loc_grids := loc_grids result @ map (tag_source (iframe_id_of f)) frame_grids,
                    loc_tables := loc_tables result @ map (tag_source (iframe_id_of f)) frame_tables\<rparr>))"

definition set_key :: "string \<Rightarrow> json \<Rightarrow> loc_result \<Rightarrow> loc_result" where
  "set_key k v result = result\<lparr>loc_data := AList.update k v (loc_data result)\<rparr>"

definition scrape_location :: "location_world \<Rightarrow> string \<Rightarrow> ets \<Rightarrow> exn + loc_data" where
  "scrape_location w location_code s =
     (if \<not> ets_logged_in s \<or> \<not> browser_page s
      then Inl (Exn RuntimeError ''Not logged in. Call login() first.'')
      else
        (case map_of ETSLINK_LOCATIONS (upper location_code) of
           None \<Rightarrow> Inr (UnknownLocation (''Unknown location: '' @ location_code))
         | Some (name, url) \<Rightarrow>
             (let result = \<lparr>loc_name = name, loc_code = upper location_code, loc_data = [],
                            loc_tables = [], loc_links = [], loc_grids = [], loc_error = None\<rparr>
              in case before_frames w of
                   Some e \<Rightarrow> Inr (LocResult (result\<lparr>loc_error := Some (str_exn e)\<rparr>))
                 | None \<Rightarrow>
                     (let r1 = frames_loop (frames w) result;
                          r2 = set_key ''url'' (JStr (page_url w)) r1
                      in case finish w of
                           TitleRaises e \<Rightarrow> Inr (LocResult (r2\<lparr>loc_error := Some (str_exn e)\<rparr>))
                         | ScreenshotRaises e \<Rightarrow>
                             Inr (LocResult
                               ((set_key ''total_tables'' (JNum (int (length (loc_tables r2))))
                                  (set_key ''total_grids'' (JNum (int (length (loc_grids r2))))
                                    (set_key ''title'' (JStr (page_title w)) r2)))
                                \<lparr>loc_error := Some (str_exn e)\<rparr>))
                         | Completed \<Rightarrow>
                             Inr (LocResult
                               (set_key ''screenshot''
                                  (JStr (''data/etslink_'' @ lower location_code @ ''_screenshot.png''))
                                  (set_key ''total_tables'' (JNum (int (length (loc_tables r2))))
                                    (set_key ''total_grids'' (JNum (int (length (loc_grids r2))))
                                      (set_key ''title'' (JStr (page_title w)) r2)))))))))"

definition ets_close :: "ets \<Rightarrow> ets" where
  "ets_close s = s\<lparr>browser_page := False, browser_context := False, browser := False,
                   playwright := False\<rparr>"

subsection \<open>The orchestrator \<^verbatim>\<open>scrape_etslink\<close>\<close>

datatype step = LoginCalled | ScrapeCalled string | SaveCalled | CloseCalled

record ets_run =
  ets_scraper :: ets
  ets_logs :: "log_entry list"
  ets_success :: bool
  locations :: "(string \<times> loc_data) list"
  steps :: "step list"

definition ets_log :: "log_type \<Rightarrow> string \<Rightarrow> ets_run \<Rightarrow> ets_run" where
  "ets_log ty msg r = r\<lparr>ets_logs := ets_logs r @ [(ty, msg)]\<rparr>"

fun has_error_key :: "loc_data \<Rightarrow> bool" where
  "has_error_key (UnknownLocation msg) = True"
| "has_error_key (LocResult r) = (loc_error r \<noteq> None)"

fun error_of :: "loc_data \<Rightarrow> string" where
  "error_of (UnknownLocation msg) = msg"
| "error_of (LocResult r) = (case loc_error r of None \<Rightarrow> [] | Some m \<Rightarrow> m)"

fun tables_of :: "loc_data \<Rightarrow> obj list" where
  "tables_of (UnknownLocation msg) = []"
| "tables_of (LocResult r) = loc_tables r"

text \<open>The loop over the locations; \<open>browse i\<close> is what the browser does during the
  \<open>i\<close>-th call of \<^verbatim>\<open>scrape_location\<close>, \<open>n\<close> the number of locations. An exception out
  of \<^verbatim>\<open>scrape_location\<close> leaves the loop.\<close>

fun locations_loop ::
  "(nat \<Rightarrow> location_world) \<Rightarrow> nat \<Rightarrow> nat \<Rightarrow> string list \<Rightarrow> ets_run \<Rightarrow> exn option \<times> ets_run" where
  "locations_loop browse n i [] r = (None, r)"
| "locations_loop browse n i (loc # rest) r =
     (let r1 = ets_log Info (''Scraping '' @ loc @ '' ('' @ str_nat (i + 1) @ ''/'' @ str_nat n @ '')...'') r;
          r2 = r1\<lparr>steps := steps r1 @ [ScrapeCalled loc]\<rparr>
      in case scrape_location (browse i) loc (ets_scraper r2) of
           Inl e \<Rightarrow> (Some e, r2)
         | Inr ld \<Rightarrow>
             (let r3 = r2\<lparr>locations := AList.update loc ld (locations r2)\<rparr>;
                  r4 = (if \<not> has_error_key ld
                        then ets_log Success (''  '' @ loc @ '': Found '' @
                               str_nat (length (tables_of ld)) @ '' tables'') r3
                        else ets_log Error (''  '' @ loc @ '': '' @ error_of ld) r3)
              in locations_loop browse n (Suc i) rest r4))"

definition scrape_etslink_try ::
  "login_world \<Rightarrow> (nat \<Rightarrow> location_world) \<Rightarrow> exn option \<Rightarrow> string list \<Rightarrow> ets_run
     \<Rightarrow> exn option \<times> ets_run" where
  "scrape_etslink_try lw browse storage locs r0 =
     (let r1 = ets_log Info ''Connecting to ETSLink...'' r0;
          ((login_success, login_error), s1) = ets_login lw (ets_scraper r1);
          r2 = r1\<lparr>ets_scraper := s1, steps := steps r1 @ [LoginCalled]\<rparr>
      in if \<not> login_success
         then (None, ets_log Error (if login_error \<noteq> [] then login_error
                                    else ''Login failed. Check credentials.'') r2)
         else
           (let r3 = ets_log Info (''Scraping '' @ str_nat (length locs) @ '' locations...'')
                       (ets_log Success ''Login successful!'' r2);
                (raised, r4) = locations_loop browse (length locs) 0 locs r3
            in case raised of
                 Some e \<Rightarrow> (Some e, r4)
               | None \<Rightarrow>
                   (let r5 = r4\<lparr>steps := steps r4 @ [SaveCalled]\<rparr>
                    in case storage of
                         Some e \<Rightarrow> (Some e, r5)
                       | None \<Rightarrow>
                           (None,
                            ets_log Success ''Scraping complete!''
                              ((ets_log Success ''Data saved to data/etslink_data.json'' r5)
                                 \<lparr>ets_success := True\<rparr>)))))"

definition scrape_etslink ::
  "login_world \<Rightarrow> (nat \<Rightarrow> location_world) \<Rightarrow> exn option \<Rightarrow> string list option \<Rightarrow> ets_run" where
  "scrape_etslink lw browse storage locs_arg =
     (let locs = (case locs_arg of None \<Rightarrow> map fst ETSLINK_LOCATIONS | Some ls \<Rightarrow> ls);
          r0 = \<lparr>ets_scraper = ETSLinkScraper, ets_logs = [], ets_success = False,
                locations = [], steps = []\<rparr>;
          (raised, r1) = scrape_etslink_try lw browse storage locs r0;
          r2 = (case raised of None \<Rightarrow> r1
                | Some e \<Rightarrow> ets_log Error (''Error: '' @ str_exn e) r1)
      in r2\<lparr>ets_scraper := ets_close (ets_scraper r2), steps := steps r2 @ [CloseCalled]\<rparr>)"




text \<open>A run over three locations: the login reaches the main page; the second location
  fails before its frames are read; the others have a frame that raises and a frame with
  one grid.\<close>

definition login_ok :: login_world where
  "login_ok = LoginPage ''https://www.etslink.com/main'' None False"

definition broken_frame :: frame_world where
  "broken_frame = \<lparr>frame_id = Some ''func_0'', outcome = FrameRaises (Exn BrowserError ''frame detached'')\<rparr>"

definition grid_frame :: frame_world where
  "grid_frame = \<lparr>frame_id = Some ''func_1'',
                  outcome = Evaluated (Some ([[(''title'', JStr ''Exports'')]], []))\<rparr>"

definition browse_example :: "nat \<Rightarrow> location_world" where
  "browse_example i =
     \<lparr>before_frames = (if i = 1 then Some (Exn BrowserError ''page crashed'') else None),
      frames = [broken_frame, grid_frame],
      page_url = ''https://www.etslink.com/main'', page_title = ''ETSLink'',
      finish = Completed\<rparr>"


text \<open>Readings used for the orchestrators: the message of a failed ETSLink login as it is
  logged, the error entry of a \<^verbatim>\<open>do_scrape\<close> run whose login did not succeed, and a
  session whose client was created once and not closed.\<close>

definition login_failure_message :: "login_world \<Rightarrow> string" where
  "login_failure_message lw =
     (if snd (fst (ets_login lw ETSLinkScraper)) \<noteq> [] then snd (fst (ets_login lw ETSLinkScraper))
      else ''Login failed. Check credentials.'')"

definition login_failure_entry :: "exn + bool \<Rightarrow> log_entry" where
  "login_failure_entry login_result =
     (case login_result of
        Inl e \<Rightarrow> (Error, ''Error: '' @ str_exn e)
      | Inr ok \<Rightarrow> (Error, ''Login failed. Check your credentials.''))"

definition open_once :: "session \<Rightarrow> bool" where
  "open_once s =
     (client s \<and> filter (\<lambda>e. e = ClientCreated) (events s) = [ClientCreated] \<and>
      filter (\<lambda>e. e = ClientClosed) (events s) = [])"

text \<open>A login that ends on the login page with the password field still visible.\<close>

definition login_rejected :: login_world where
  "login_rejected = LoginPage ''https://www.etslink.com/'' None True"

section \<open>Table extraction: the loop computes the declarative reading\<close>

lemma any_nonempty_Nil: "\<not> any_nonempty []"
  by (simp add: any_nonempty_def)

lemma any_nonempty_imp: "any_nonempty cs \<Longrightarrow> cs \<noteq> []"
  by (auto simp: any_nonempty_def)

lemma scan_rows_headers_set:
  "hs \<noteq> [] \<Longrightarrow> scan_rows trs hs rs =
     (hs, rs @ map row_cells (filter (\<lambda>tr. any_nonempty (row_cells tr)) trs))"
  by (induction trs arbitrary: rs) (auto simp: Let_def any_nonempty_Nil)

lemma scan_rows_no_headers:
  "scan_rows trs [] rs =
     ((case filter has_th (filter (\<lambda>tr. any_nonempty (row_cells tr)) trs) of
         [] \<Rightarrow> [] | h # _ \<Rightarrow> row_cells h),
      rs @ map row_cells (remove_first has_th (filter (\<lambda>tr. any_nonempty (row_cells tr)) trs)))"
proof (induction trs arbitrary: rs)
  case Nil
  show ?case by simp
next
  case (Cons tr trs)
  show ?case
  proof (cases "any_nonempty (row_cells tr)")
    case False
    then show ?thesis using Cons.IH [of rs] by (simp add: Let_def)
  next
    case kept: True
    then have ne: "row_cells tr \<noteq> []" by (rule any_nonempty_imp)
    show ?thesis
    proof (cases "has_th tr")
      case True
      then show ?thesis using kept ne
        by (simp add: Let_def scan_rows_headers_set)
    next
      case False
      then show ?thesis using kept ne Cons.IH [of "rs @ [row_cells tr]"]
        by (simp add: Let_def)
    qed
  qed
qed

lemma scan_rows_table:
  "scan_rows (find_all (is_tag ''tr'') tb) [] [] = (spec_headers tb, spec_rows tb)"
  by (simp add: scan_rows_no_headers spec_headers_def spec_rows_def kept_rows_def)

lemma tables_loop_mem:
  "t \<in> set (tables_loop idx tbs acc) \<Longrightarrow>
     t \<in> set acc \<or>
     (\<exists>i < length tbs. t = \<lparr>table_id = idx + i, headers = spec_headers (tbs ! i),
         rows = spec_rows (tbs ! i), rowCount = length (spec_rows (tbs ! i))\<rparr>)"
proof (induction tbs arbitrary: idx acc)
  case Nil
  then show ?case by simp
next
  case (Cons tb tbs)
  let ?e = "\<lparr>table_id = idx, headers = spec_headers tb, rows = spec_rows tb,
              rowCount = length (spec_rows tb)\<rparr>"
  from Cons.prems have
    "t \<in> set (tables_loop (Suc idx) tbs
       (if spec_rows tb \<noteq> [] \<or> spec_headers tb \<noteq> [] then acc @ [?e] else acc))"
    by (simp add: scan_rows_table)
  from Cons.IH [OF this] show ?case
  proof
    assume "t \<in> set (if spec_rows tb \<noteq> [] \<or> spec_headers tb \<noteq> [] then acc @ [?e] else acc)"
    then consider "t \<in> set acc" | "t = ?e"
      by (auto split: if_splits)
    then show ?thesis
    proof cases
      case 1
      then show ?thesis by simp
    next
      case 2
      then have "0 < length (tb # tbs) \<and>
         t = \<lparr>table_id = idx + 0, headers = spec_headers ((tb # tbs) ! 0),
               rows = spec_rows ((tb # tbs) ! 0),
               rowCount = length (spec_rows ((tb # tbs) ! 0))\<rparr>"
        by simp
      then show ?thesis by blast
    qed
  next
    assume "\<exists>i<length tbs. t = \<lparr>table_id = Suc idx + i, headers = spec_headers (tbs ! i),
         rows = spec_rows (tbs ! i), rowCount = length (spec_rows (tbs ! i))\<rparr>"
    then obtain i where i: "i < length tbs"
      "t = \<lparr>table_id = Suc idx + i, headers = spec_headers (tbs ! i),
            rows = spec_rows (tbs ! i), rowCount = length (spec_rows (tbs ! i))\<rparr>"
      by blast
    then have "Suc i < length (tb # tbs) \<and>
         t = \<lparr>table_id = idx + Suc i, headers = spec_headers ((tb # tbs) ! Suc i),
               rows = spec_rows ((tb # tbs) ! Suc i),
               rowCount = length (spec_rows ((tb # tbs) ! Suc i))\<rparr>"
      by simp
    then show ?thesis by blast
  qed
qed

lemma remove_first_subset: "set (remove_first P xs) \<subseteq> set xs"
  by (induction xs) auto

lemma spec_rows_nonempty: "r \<in> set (spec_rows tb) \<Longrightarrow> any_nonempty r"
proof -
  assume "r \<in> set (spec_rows tb)"
  then obtain tr where "tr \<in> set (remove_first has_th (kept_rows tb))" "r = row_cells tr"
    by (auto simp: spec_rows_def)
  with remove_first_subset [of has_th "kept_rows tb"] have "tr \<in> set (kept_rows tb)" by blast
  with \<open>r = row_cells tr\<close> show ?thesis by (simp add: kept_rows_def)
qed

text \<open>
  Claim C2. Every table that \<^verbatim>\<open>do_scrape\<close> records comes from a \<^verbatim>\<open>table\<close> element of
  the page, found at the index stored in its id. Rows whose cells are all empty after
  stripping are dropped; among the rows that are kept, the first one that contains a
  \<^verbatim>\<open>th\<close> cell becomes the headers and is not among the recorded rows; every recorded
  row has a non-empty cell; and \<open>rowCount\<close> is the number of recorded rows.
\<close>

theorem table_extraction_invariant:
  assumes "t \<in> set (extract_tables sp)"
  shows "table_id t < length (find_all (is_tag ''table'') sp) \<and>
         headers t = spec_headers (find_all (is_tag ''table'') sp ! table_id t) \<and>
         rows t = spec_rows (find_all (is_tag ''table'') sp ! table_id t) \<and>
         rowCount t = length (rows t) \<and>
         (\<forall>r \<in> set (rows t). any_nonempty r)"
proof -
  from assms tables_loop_mem [of t 0 "find_all (is_tag ''table'') sp" "[]"]
  obtain i where i: "i < length (find_all (is_tag ''table'') sp)"
    and t: "t = \<lparr>table_id = i, headers = spec_headers (find_all (is_tag ''table'') sp ! i),
         rows = spec_rows (find_all (is_tag ''table'') sp ! i),
         rowCount = length (spec_rows (find_all (is_tag ''table'') sp ! i))\<rparr>"
    by (auto simp: extract_tables_def)
  show ?thesis using i by (simp add: t spec_rows_nonempty)
qed

theorem table_extraction_invariant_witness:
  "extract_tables tables_example =
     [\<lparr>table_id = 0, headers = [], rows = [[''A'', ''B'']], rowCount = 1\<rparr>,
      \<lparr>table_id = 1, headers = [''Name'', ''Qty''], rows = [[''bolt'', ''7'']], rowCount = 1\<rparr>] \<and>
   spec_headers (find_all (is_tag ''table'') tables_example ! 1) = [''Name'', ''Qty''] \<and>
   spec_rows (find_all (is_tag ''table'') tables_example ! 0) = [[''A'', ''B'']] \<and>
   any_nonempty [''bolt'', ''7'']"
proof -
  have ev: "extract_tables tables_example =
     [\<lparr>table_id = 0, headers = [], rows = [[''A'', ''B'']], rowCount = 1\<rparr>,
      \<lparr>table_id = 1, headers = [''Name'', ''Qty''], rows = [[''bolt'', ''7'']], rowCount = 1\<rparr>]"
    by (simp add: tables_example_def extract_tables_def find_all_def row_cells_def
        get_text_strip_def strip_def isspace_def any_nonempty_def has_th_def find_first_def)
  have m0: "\<lparr>table_id = 0, headers = [], rows = [[''A'', ''B'']], rowCount = 1\<rparr>
              \<in> set (extract_tables tables_example)"
    and m1: "\<lparr>table_id = 1, headers = [''Name'', ''Qty''], rows = [[''bolt'', ''7'']], rowCount = 1\<rparr>
              \<in> set (extract_tables tables_example)"
    by (simp_all add: ev)
  from table_extraction_invariant [OF m0]
  have r0: "spec_rows (find_all (is_tag ''table'') tables_example ! 0) = [[''A'', ''B'']]"
    by simp
  from table_extraction_invariant [OF m1]
  have h1: "spec_headers (find_all (is_tag ''table'') tables_example ! 1) = [''Name'', ''Qty'']"
    and n1: "any_nonempty [''bolt'', ''7'']"
    by simp_all
  from ev h1 r0 n1 show ?thesis by blast
qed


section \<open>The fetch layer\<close>

lemma requests_sent_get_client: "requests_sent (get_client s) = requests_sent s"
  by (simp add: requests_sent_def get_client_def)

lemma text_or_none_failure: "http_failure a \<Longrightarrow> text_or_none a = Inr None"
  by (cases a) (auto simp: http_failure_def text_or_none_def raise_for_status_def)

lemma json_or_none_all_failure: "http_failure a \<Longrightarrow> json_or_none_all a = Inr None"
  by (cases a) (auto simp: http_failure_def json_or_none_all_def raise_for_status_def)

lemma fetch_json_failure: "http_failure a \<Longrightarrow> fetch_json a = Inr None"
  by (cases a) (auto simp: http_failure_def fetch_json_def raise_for_status_def)

lemma get_result: "fst (get net path s) =
    text_or_none (net (requests_sent s)
      (GET (if path \<noteq> [] then session_url (get_client s) path else base_url (get_client s))))"
  by (simp add: get_def send_def Let_def requests_sent_get_client)

lemma post_result: "fst (post net path d s) =
    text_or_none (net (requests_sent s) (POST (session_url (get_client s) path) d))"
  by (simp add: post_def send_def Let_def requests_sent_get_client)

lemma json_post_result: "fst (json_post net path d s) =
    json_or_none_all (net (requests_sent s) (POST_JSON (session_url (get_client s) path) d))"
  by (simp add: json_post_def send_def Let_def requests_sent_get_client)

lemma form_post_json_result: "fst (form_post_json net path d s) =
    json_or_none_all (net (requests_sent s) (POST (session_url (get_client s) path) d))"
  by (simp add: form_post_json_def send_def Let_def requests_sent_get_client)

text \<open>The JSON fetch of the base scraper has no clause for a decoding error: a 200
  response whose body is not JSON raises out of \<^verbatim>\<open>fetch_json\<close>. This is not an
  HTTP-level failure.\<close>

lemma fetch_json_decode_error_propagates:
  "fetch_json (Returns \<lparr>status_code = 200, body = empty_page, json_body = None\<rparr>) =
     Inl (Exn JSONDecodeError ''invalid JSON'')"
  by (simp add: fetch_json_def raise_for_status_def response_json_def)

lemma http_failure_gives_none:
  assumes "http_failure a" and "\<forall>rq. net (requests_sent s) rq = a"
  shows "fst (get net path s) = Inr None \<and>
         fst (post net path form_data s) = Inr None \<and>
         fst (json_post net path json_data s) = Inr None \<and>
         fst (form_post_json net path form_data s) = Inr None \<and>
         fetch a = Inr None \<and>
         fetch_json a = Inr None"
  using assms
  by (simp add: get_result post_result json_post_result form_post_json_result fetch_def
      text_or_none_failure json_or_none_all_failure fetch_json_failure)

lemma text_or_none_raises:
  "text_or_none a = Inl e \<longleftrightarrow> a = Raises e \<and> \<not> is_HTTPError e"
  by (cases a) (auto simp: text_or_none_def raise_for_status_def)

lemma json_or_none_all_total: "\<exists>v. json_or_none_all a = Inr v"
  by (cases a) (auto simp: json_or_none_all_def split: sum.splits)

lemma fetch_json_request_raises:
  "\<not> is_HTTPError e \<Longrightarrow> fetch_json (Raises e) = Inl e"
  by (simp add: fetch_json_def)

text \<open>
  Claim C10, as the code has it. When the request of a fetch operation fails at the HTTP
  level (an exception below \<^verbatim>\<open>httpx.HTTPError\<close>, or a status that \<^verbatim>\<open>raise_for_status\<close>
  rejects), the operation raises nothing and returns \<open>None\<close>: \<^verbatim>\<open>get\<close>, \<^verbatim>\<open>post\<close>,
  \<^verbatim>\<open>json_post\<close> and \<^verbatim>\<open>form_post_json\<close> of the session client, \<^verbatim>\<open>fetch\<close> and
  \<^verbatim>\<open>fetch_json\<close> of the base scraper. Of these, \<^verbatim>\<open>json_post\<close> and \<^verbatim>\<open>form_post_json\<close>
  never raise. \<^verbatim>\<open>get\<close>, \<^verbatim>\<open>post\<close> and \<^verbatim>\<open>fetch\<close> raise exactly when the request raises an
  exception that is not below \<^verbatim>\<open>httpx.HTTPError\<close>, and they raise that exception; such an
  exception of the request also leaves \<^verbatim>\<open>fetch_json\<close>.
\<close>

theorem fetch_layer_results:
  "(http_failure a \<and> (\<forall>rq. net (requests_sent s) rq = a) \<longrightarrow>
      fst (get net path s) = Inr None \<and>
      fst (post net path form_data s) = Inr None \<and>
      fst (json_post net path json_data s) = Inr None \<and>
      fst (form_post_json net path form_data s) = Inr None \<and>
      fetch a = Inr None \<and>
      fetch_json a = Inr None) \<and>
   (\<exists>v. fst (json_post net path json_data s) = Inr v) \<and>
   (\<exists>v. fst (form_post_json net path form_data s) = Inr v) \<and>
   (\<forall>e. fst (get net path s) = Inl e \<longleftrightarrow>
      net (requests_sent s)
        (GET (if path \<noteq> [] then session_url (get_client s) path else base_url (get_client s))) =
        Raises e \<and> \<not> is_HTTPError e) \<and>
   (\<forall>e. fst (post net path form_data s) = Inl e \<longleftrightarrow>
      net (requests_sent s) (POST (session_url (get_client s) path) form_data) = Raises e \<and>
      \<not> is_HTTPError e) \<and>
   (\<forall>e. fetch b = Inl e \<longleftrightarrow> b = Raises e \<and> \<not> is_HTTPError e) \<and>
   (\<forall>e. \<not> is_HTTPError e \<longrightarrow> fetch_json (Raises e) = Inl e)"
proof -
  have none: "http_failure a \<and> (\<forall>rq. net (requests_sent s) rq = a) \<longrightarrow>
      fst (get net path s) = Inr None \<and>
      fst (post net path form_data s) = Inr None \<and>
      fst (json_post net path json_data s) = Inr None \<and>
      fst (form_post_json net path form_data s) = Inr None \<and>
      fetch a = Inr None \<and>
      fetch_json a = Inr None"
    using http_failure_gives_none [of a net s path form_data json_data] by blast
  have jp: "\<exists>v. fst (json_post net path json_data s) = Inr v"
    unfolding json_post_result by (rule json_or_none_all_total)
  have fp: "\<exists>v. fst (form_post_json net path form_data s) = Inr v"
    unfolding form_post_json_result by (rule json_or_none_all_total)
  have g: "\<forall>e. fst (get net path s) = Inl e \<longleftrightarrow>
      net (requests_sent s)
        (GET (if path \<noteq> [] then session_url (get_client s) path else base_url (get_client s))) =
        Raises e \<and> \<not> is_HTTPError e"
    unfolding get_result by (simp only: text_or_none_raises) simp
  have p: "\<forall>e. fst (post net path form_data s) = Inl e \<longleftrightarrow>
      net (requests_sent s) (POST (session_url (get_client s) path) form_data) = Raises e \<and>
      \<not> is_HTTPError e"
    unfolding post_result by (simp only: text_or_none_raises) simp
  have f: "\<forall>e. fetch b = Inl e \<longleftrightarrow> b = Raises e \<and> \<not> is_HTTPError e"
    by (simp add: fetch_def text_or_none_raises)
  have fj: "\<forall>e. \<not> is_HTTPError e \<longrightarrow> fetch_json (Raises e) = Inl e"
    by (simp add: fetch_json_request_raises)
  from none jp fp g p f fj show ?thesis by blast
qed

theorem fetch_layer_results_witness:
  "http_failure (Raises (Exn ConnectError ''connection refused'')) \<and>
   fst (get (\<lambda>n rq. Raises (Exn ConnectError ''connection refused'')) ''default.do'' site) = Inr None \<and>
   fst (post (\<lambda>n rq. Raises (Exn ConnectError ''connection refused'')) ''default.do'' [] site) = Inr None \<and>
   fetch (Raises (Exn ConnectError ''connection refused'')) = Inr None \<and>
   fetch_json (Raises (Exn ConnectError ''connection refused'')) = Inr None \<and>
   \<not> is_HTTPError (Exn InvalidURL ''invalid character in URL'') \<and>
   fetch_json (Raises (Exn InvalidURL ''invalid character in URL'')) =
     Inl (Exn InvalidURL ''invalid character in URL'')"
proof -
  have h: "http_failure (Raises (Exn ConnectError ''connection refused''))"
    by (simp add: http_failure_def)
  have n: "\<forall>rq. (\<lambda>n rq. Raises (Exn ConnectError ''connection refused'')) (requests_sent site) rq
             = Raises (Exn ConnectError ''connection refused'')"
    by simp
  have i: "\<not> is_HTTPError (Exn InvalidURL ''invalid character in URL'')"
    by simp
  note inst = fetch_layer_results [where a = "Raises (Exn ConnectError ''connection refused'')"
      and net = "\<lambda>n rq. Raises (Exn ConnectError ''connection refused'')" and s = site
      and path = "''default.do''" and form_data = "[]"]
  from inst h n have a: "fst (get (\<lambda>n rq. Raises (Exn ConnectError ''connection refused'')) ''default.do'' site) = Inr None"
    "fst (post (\<lambda>n rq. Raises (Exn ConnectError ''connection refused'')) ''default.do'' [] site) = Inr None"
    "fetch (Raises (Exn ConnectError ''connection refused'')) = Inr None"
    "fetch_json (Raises (Exn ConnectError ''connection refused'')) = Inr None"
    by blast+
  from inst i have b: "fetch_json (Raises (Exn InvalidURL ''invalid character in URL'')) =
     Inl (Exn InvalidURL ''invalid character in URL'')"
    by blast
  from h a i b show ?thesis by blast
qed

text \<open>The claim as the specification states it fails: the fetch operations are not all
  total. A request that raises \<^verbatim>\<open>httpx.InvalidURL\<close>, which is not below
  \<^verbatim>\<open>httpx.HTTPError\<close>, raises out of \<^verbatim>\<open>get\<close> and out of \<^verbatim>\<open>fetch\<close>.\<close>

theorem fetch_layer_total_counterexample:
  "fst (get (\<lambda>n rq. Raises (Exn InvalidURL ''invalid character in URL'')) ''default.do'' site) =
     Inl (Exn InvalidURL ''invalid character in URL'') \<and>
   fetch (Raises (Exn InvalidURL ''invalid character in URL'')) =
     Inl (Exn InvalidURL ''invalid character in URL'')"
  by (simp add: get_result fetch_def text_or_none_def)

text \<open>
  Claim C3, as the code has it. A GET or POST through the session client whose response
  has a status outside 2xx and 3xx, or which times out, raises nothing: the
  \<^verbatim>\<open>except httpx.HTTPError\<close> clause catches both and the operation returns \<open>None\<close>, the
  same value in both cases. The timeout of a session is 30 seconds unless the caller
  gives another.
\<close>

theorem session_client_swallows_errors:
  assumes "error_status a \<or> timed_out a" and "\<forall>rq. net (requests_sent s) rq = a"
  shows "fst (get net path s) = Inr None \<and>
         fst (post net path form_data s) = Inr None \<and>
         timeout (SessionScraper url hdrs None) = 30 \<and>
         timeout (SessionScraper url hdrs (Some t)) = t"
proof -
  from assms(1) have "http_failure a"
    by (auto simp: error_status_def timed_out_def http_failure_def
        split: attempt.splits exn.splits exn_class.splits)
  then have "text_or_none a = Inr None" by (rule text_or_none_failure)
  with assms(2) show ?thesis
    by (simp add: get_result post_result SessionScraper_def)
qed

theorem session_client_swallows_errors_witness:
  "error_status (Returns not_found) \<and>
   fst (get (\<lambda>n rq. Returns not_found) ''default.do'' site) = Inr None \<and>
   fst (post (\<lambda>n rq. Returns not_found) ''default.do'' [] site) = Inr None \<and>
   timeout site = 30"
proof -
  have h: "error_status (Returns not_found) \<or> timed_out (Returns not_found)"
    by (simp add: error_status_def not_found_def)
  have n: "\<forall>rq. (\<lambda>n rq. Returns not_found) (requests_sent site) rq = Returns not_found"
    by simp
  have e: "error_status (Returns not_found)"
    by (simp add: error_status_def not_found_def)
  from session_client_swallows_errors [OF h n, where path = "''default.do''" and form_data = "[]"
      and url = "''https://site.example/app/''" and hdrs = None]
  show ?thesis using e by (simp add: site_def)
qed

text \<open>The claim as the specification states it fails: on a 404 response \<^verbatim>\<open>get\<close> returns
  \<open>None\<close> and raises no error carrying the status, and on a timeout it returns the very
  same value.\<close>

theorem session_client_raises_counterexample:
  "fst (get (\<lambda>n rq. Returns not_found) ''default.do'' site) = Inr None \<and>
   (\<forall>e. fst (get (\<lambda>n rq. Returns not_found) ''default.do'' site) \<noteq> Inl e) \<and>
   fst (get (\<lambda>n rq. Raises (Exn TimeoutException ''timed out'')) ''default.do'' site) =
     fst (get (\<lambda>n rq. Returns not_found) ''default.do'' site)"
  by (simp add: get_result text_or_none_def raise_for_status_def not_found_def)


section \<open>The login form resolver\<close>

lemma collect_inputs_hidden:
  "map_of (hidden_fields (collect_inputs inps ff)) name =
     (case filter (\<lambda>i. declared_type i = ''hidden'' \<and> attr_get i ''name'' = Some name)
             (filter is_named inps) of
        [] \<Rightarrow> map_of (hidden_fields ff) name
      | x # xs \<Rightarrow> Some (attr_default (last (x # xs)) ''value'' []))"
proof (induction inps arbitrary: ff)
  case Nil
  show ?case by simp
next
  case (Cons i inps)
  show ?case
  proof (cases "is_named i")
    case False
    then show ?thesis using Cons.IH [of ff]
      by (auto simp: is_named_def split: option.splits)
  next
    case True
    then obtain n where n: "attr_get i ''name'' = Some n" "n \<noteq> []"
      by (auto simp: is_named_def split: option.splits)
    show ?thesis
    proof (cases "declared_type i = ''hidden''")
      case h: True
      let ?ff = "ff\<lparr>hidden_fields := AList.update n (attr_default i ''value'' []) (hidden_fields ff)\<rparr>"
      have step: "collect_inputs (i # inps) ff = collect_inputs inps ?ff"
        using n h by (simp add: declared_type_def Let_def)
      show ?thesis
        unfolding step Cons.IH [of ?ff]
        using n h True
        by (auto simp: update_conv' split: list.splits)
    next
      case v: False
      let ?ff = "ff\<lparr>fields_map := AList.update n (attr_default i ''type'' ''text'', attr_default i ''value'' []) (fields_map ff)\<rparr>"
      have step: "collect_inputs (i # inps) ff = collect_inputs inps ?ff"
        using n v by (simp add: declared_type_def Let_def)
      show ?thesis
        unfolding step Cons.IH [of ?ff]
        using n v True
        by (auto split: list.splits)
    qed
  qed
qed

lemma collect_inputs_visible:
  "map_of (fields_map (collect_inputs inps ff)) name =
     (case filter (\<lambda>i. declared_type i \<noteq> ''hidden'' \<and> attr_get i ''name'' = Some name)
             (filter is_named inps) of
        [] \<Rightarrow> map_of (fields_map ff) name
      | x # xs \<Rightarrow> Some (declared_type (last (x # xs)), attr_default (last (x # xs)) ''value'' []))"
proof (induction inps arbitrary: ff)
  case Nil
  show ?case by simp
next
  case (Cons i inps)
  show ?case
  proof (cases "is_named i")
    case False
    then show ?thesis using Cons.IH [of ff]
      by (auto simp: is_named_def split: option.splits)
  next
    case True
    then obtain n where n: "attr_get i ''name'' = Some n" "n \<noteq> []"
      by (auto simp: is_named_def split: option.splits)
    show ?thesis
    proof (cases "declared_type i = ''hidden''")
      case h: True
      let ?ff = "ff\<lparr>hidden_fields := AList.update n (attr_default i ''value'' []) (hidden_fields ff)\<rparr>"
      have step: "collect_inputs (i # inps) ff = collect_inputs inps ?ff"
        using n h by (simp add: declared_type_def Let_def)
      show ?thesis
        unfolding step Cons.IH [of ?ff]
        using n h True
        by (auto split: list.splits)
    next
      case v: False
      let ?ff = "ff\<lparr>fields_map := AList.update n (attr_default i ''type'' ''text'', attr_default i ''value'' []) (fields_map ff)\<rparr>"
      have step: "collect_inputs (i # inps) ff = collect_inputs inps ?ff"
        using n v by (simp add: declared_type_def Let_def)
      show ?thesis
        unfolding step Cons.IH [of ?ff]
        using n v True
        by (auto simp: update_conv' declared_type_def split: list.splits)
    qed
  qed
qed

lemma collect_inputs_action: "form_action (collect_inputs inps ff) = form_action ff"
  by (induction inps arbitrary: ff) (auto simp: Let_def split: option.splits)

lemma resolver_hidden:
  "map_of (hidden_fields (collect_inputs (find_all (is_tag ''input'') form)
       \<lparr>form_action = a, form_method = m, fields_map = [], hidden_fields = []\<rparr>)) name =
   map_option (\<lambda>i. attr_default i ''value'' [])
     (last_named (\<lambda>i. declared_type i = ''hidden'') name form)"
  by (simp add: collect_inputs_hidden last_named_def named_inputs_def split: list.splits)

lemma resolver_visible:
  "map_of (fields_map (collect_inputs (find_all (is_tag ''input'') form)
       \<lparr>form_action = a, form_method = m, fields_map = [], hidden_fields = []\<rparr>)) name =
   map_option (\<lambda>i. (declared_type i, attr_default i ''value'' []))
     (last_named (\<lambda>i. declared_type i \<noteq> ''hidden'') name form)"
  by (simp add: collect_inputs_visible last_named_def named_inputs_def split: list.splits)

lemma last_named_exists:
  assumes "i \<in> set (named_inputs form)" and "side i" and "attr_get i ''name'' = Some n"
  shows "\<exists>j. last_named side n form = Some j"
proof -
  from assms have "i \<in> set (filter (\<lambda>i. side i \<and> attr_get i ''name'' = Some n) (named_inputs form))"
    by simp
  then have "filter (\<lambda>i. side i \<and> attr_get i ''name'' = Some n) (named_inputs form) \<noteq> []"
    by (metis empty_iff list.set(1))
  then show ?thesis
    by (auto simp: last_named_def split: list.splits)
qed

text \<open>
  Claim C7. For a fetched, non-empty login page, \<^verbatim>\<open>get_login_form_fields\<close> returns the
  empty result when the page has no form; otherwise it describes the first form of the
  page: the action is the form's \<^verbatim>\<open>action\<close> attribute (empty when there is none), every
  input of the form with a non-empty name is a key of \<open>hidden_fields\<close> when its type is
  \<open>hidden\<close> and a key of \<open>fields\<close> otherwise, and under each name the hidden side holds
  the value, and the visible side the type and value, of the last such input.
\<close>

theorem login_form_resolver:
  assumes "fst (get net path s) = Inr (Some pg)" and "body_text pg \<noteq> []"
  shows "(find_first (is_tag ''form'') (soup pg) = None \<longrightarrow>
            fst (get_login_form_fields net path s) = Inr None) \<and>
         (\<forall>form. find_first (is_tag ''form'') (soup pg) = Some form \<longrightarrow>
            (\<exists>ff. fst (get_login_form_fields net path s) = Inr (Some ff) \<and>
               form_action ff = attr_default form ''action'' [] \<and>
               (\<forall>i \<in> set (named_inputs form). \<forall>n. attr_get i ''name'' = Some n \<longrightarrow>
                  (if declared_type i = ''hidden'' then n \<in> dom (map_of (hidden_fields ff))
                   else n \<in> dom (map_of (fields_map ff)))) \<and>
               (\<forall>name. map_of (hidden_fields ff) name =
                  map_option (\<lambda>i. attr_default i ''value'' [])
                    (last_named (\<lambda>i. declared_type i = ''hidden'') name form)) \<and>
               (\<forall>name. map_of (fields_map ff) name =
                  map_option (\<lambda>i. (declared_type i, attr_default i ''value'' []))
                    (last_named (\<lambda>i. declared_type i \<noteq> ''hidden'') name form))))"
proof (intro conjI allI impI)
  assume "find_first (is_tag ''form'') (soup pg) = None"
  with assms show "fst (get_login_form_fields net path s) = Inr None"
    by (cases "get net path s") (simp add: get_login_form_fields_def)
next
  fix form
  assume f: "find_first (is_tag ''form'') (soup pg) = Some form"
  let ?ff = "collect_inputs (find_all (is_tag ''input'') form)
       \<lparr>form_action = attr_default form ''action'' [],
        form_method = attr_default form ''method'' ''POST'',
        fields_map = [], hidden_fields = []\<rparr>"
  have r: "fst (get_login_form_fields net path s) = Inr (Some ?ff)"
    using assms f by (cases "get net path s") (simp add: get_login_form_fields_def)
  have a: "form_action ?ff = attr_default form ''action'' []"
    by (simp add: collect_inputs_action)
  have h: "\<forall>name. map_of (hidden_fields ?ff) name =
                  map_option (\<lambda>i. attr_default i ''value'' [])
                    (last_named (\<lambda>i. declared_type i = ''hidden'') name form)"
    by (simp add: resolver_hidden)
  have v: "\<forall>name. map_of (fields_map ?ff) name =
                  map_option (\<lambda>i. (declared_type i, attr_default i ''value'' []))
                    (last_named (\<lambda>i. declared_type i \<noteq> ''hidden'') name form)"
    by (simp add: resolver_visible)
  have k: "\<forall>i \<in> set (named_inputs form). \<forall>n. attr_get i ''name'' = Some n \<longrightarrow>
                  (if declared_type i = ''hidden'' then n \<in> dom (map_of (hidden_fields ?ff))
                   else n \<in> dom (map_of (fields_map ?ff)))"
  proof (intro ballI allI impI)
    fix i n
    assume i: "i \<in> set (named_inputs form)" and n: "attr_get i ''name'' = Some n"
    show "if declared_type i = ''hidden'' then n \<in> dom (map_of (hidden_fields ?ff))
          else n \<in> dom (map_of (fields_map ?ff))"
    proof (cases "declared_type i = ''hidden''")
      case True
      with last_named_exists [OF i _ n, of "\<lambda>i. declared_type i = ''hidden''"]
      obtain j where "last_named (\<lambda>i. declared_type i = ''hidden'') n form = Some j" by blast
      with h True show ?thesis by (simp add: dom_def)
    next
      case False
      with last_named_exists [OF i _ n, of "\<lambda>i. declared_type i \<noteq> ''hidden''"]
      obtain j where "last_named (\<lambda>i. declared_type i \<noteq> ''hidden'') n form = Some j" by blast
      with v False show ?thesis by (simp add: dom_def)
    qed
  qed
  from r a k h v
  show "\<exists>ff. fst (get_login_form_fields net path s) = Inr (Some ff) \<and>
               form_action ff = attr_default form ''action'' [] \<and>
               (\<forall>i \<in> set (named_inputs form). \<forall>n. attr_get i ''name'' = Some n \<longrightarrow>
                  (if declared_type i = ''hidden'' then n \<in> dom (map_of (hidden_fields ff))
                   else n \<in> dom (map_of (fields_map ff)))) \<and>
               (\<forall>name. map_of (hidden_fields ff) name =
                  map_option (\<lambda>i. attr_default i ''value'' [])
                    (last_named (\<lambda>i. declared_type i = ''hidden'') name form)) \<and>
               (\<forall>name. map_of (fields_map ff) name =
                  map_option (\<lambda>i. (declared_type i, attr_default i ''value'' []))
                    (last_named (\<lambda>i. declared_type i \<noteq> ''hidden'') name form))"
    by blast
qed

lemma get_serve: "fst (get (serve pg) path s) = Inr (Some pg)"
  by (simp add: get_result serve_def text_or_none_def raise_for_status_def)

theorem login_form_resolver_witness:
  "fst (get (serve login_page_example) ''default.do'' site) = Inr (Some login_page_example) \<and>
   body_text login_page_example \<noteq> [] \<and>
   find_first (is_tag ''form'') (soup login_page_example) = Some login_form_example \<and>
   (\<exists>ff. fst (get_login_form_fields (serve login_page_example) ''default.do'' site) = Inr (Some ff) \<and>
      form_action ff = ''j_security_check'' \<and>
      map_of (hidden_fields ff) ''csrf'' = Some ''tok123'' \<and>
      map_of (fields_map ff) ''j_password'' = Some (''password'', []) \<and>
      map_of (fields_map ff) ''j_username'' = Some (''text'', []))"
proof -
  have g: "fst (get (serve login_page_example) ''default.do'' site) = Inr (Some login_page_example)"
    by (rule get_serve)
  have b: "body_text login_page_example \<noteq> []"
    by (simp add: login_page_example_def)
  have f: "find_first (is_tag ''form'') (soup login_page_example) = Some login_form_example"
    by (simp add: login_page_example_def login_form_example_def find_first_def find_all_def)
  have a: "attr_default login_form_example ''action'' [] = ''j_security_check''"
    by (simp add: login_form_example_def attr_default_def)
  have h: "map_option (\<lambda>i. attr_default i ''value'' [])
             (last_named (\<lambda>i. declared_type i = ''hidden'') ''csrf'' login_form_example) = Some ''tok123''"
    by (simp add: login_form_example_def last_named_def named_inputs_def find_all_def
        is_named_def declared_type_def attr_default_def)
  have p: "map_option (\<lambda>i. (declared_type i, attr_default i ''value'' []))
             (last_named (\<lambda>i. declared_type i \<noteq> ''hidden'') ''j_password'' login_form_example) =
           Some (''password'', [])"
    by (simp add: login_form_example_def last_named_def named_inputs_def find_all_def
        is_named_def declared_type_def attr_default_def)
  have u: "map_option (\<lambda>i. (declared_type i, attr_default i ''value'' []))
             (last_named (\<lambda>i. declared_type i \<noteq> ''hidden'') ''j_username'' login_form_example) =
           Some (''text'', [])"
    by (simp add: login_form_example_def last_named_def named_inputs_def find_all_def
        is_named_def declared_type_def attr_default_def)
  from login_form_resolver [OF g b] f
  obtain ff where ff: "fst (get_login_form_fields (serve login_page_example) ''default.do'' site) = Inr (Some ff)"
    "form_action ff = attr_default login_form_example ''action'' []"
    "\<forall>name. map_of (hidden_fields ff) name =
                  map_option (\<lambda>i. attr_default i ''value'' [])
                    (last_named (\<lambda>i. declared_type i = ''hidden'') name login_form_example)"
    "\<forall>name. map_of (fields_map ff) name =
                  map_option (\<lambda>i. (declared_type i, attr_default i ''value'' []))
                    (last_named (\<lambda>i. declared_type i \<noteq> ''hidden'') name login_form_example)"
    by blast
  from ff a h p u have "fst (get_login_form_fields (serve login_page_example) ''default.do'' site) = Inr (Some ff) \<and>
      form_action ff = ''j_security_check'' \<and>
      map_of (hidden_fields ff) ''csrf'' = Some ''tok123'' \<and>
      map_of (fields_map ff) ''j_password'' = Some (''password'', []) \<and>
      map_of (fields_map ff) ''j_username'' = Some (''text'', [])"
    by simp
  with g b f show ?thesis by blast
qed


section \<open>Link extraction\<close>

lemma nav_links_app_map:
  "nav_links_app base ls =
     map (\<lambda>l. (get_text_strip l, app_href base (attr_default l ''href'' []))) (filter link_selected ls)"
  by (induction ls) (auto simp: Let_def link_selected_def excluded_scheme_def app_href_def)

lemma nav_links_t18_map:
  "nav_links_t18 ls =
     map (\<lambda>l. (get_text_strip l, attr_default l ''href'' [])) (filter link_selected ls)"
  by (induction ls) (auto simp: Let_def link_selected_def excluded_scheme_def)

text \<open>
  Claim C6, as the code has it. Both link loops keep exactly the anchors with non-empty
  stripped text and a non-empty \<^verbatim>\<open>href\<close> that does not start with \<^verbatim>\<open>javascript:\<close>,
  \<^verbatim>\<open>#\<close> or \<^verbatim>\<open>mailto:\<close>. \<^verbatim>\<open>do_scrape\<close> records a target that starts with \<^verbatim>\<open>http\<close>
  unchanged and every other target as base, a slash, and the target without its leading
  slashes, so \<^verbatim>\<open>/about\<close> on base \<^verbatim>\<open>https://site.example/app\<close> becomes
  \<^verbatim>\<open>https://site.example/app/about\<close>. \<^verbatim>\<open>scrape_t18\<close> records every target as found.
\<close>

theorem link_normalization:
  "nav_links_app base ls =
     map (\<lambda>l. (get_text_strip l, app_href base (attr_default l ''href'' []))) (filter link_selected ls) \<and>
   nav_links_t18 ls =
     map (\<lambda>l. (get_text_strip l, attr_default l ''href'' [])) (filter link_selected ls) \<and>
   (startswith href ''http'' \<longrightarrow> app_href base href = href) \<and>
   (\<not> startswith href ''http'' \<longrightarrow> app_href base href = base @ ''/'' @ lstrip_slash href) \<and>
   app_href ''https://site.example/app'' ''/about'' = ''https://site.example/app/about'' \<and>
   (\<forall>l \<in> set ls. startswith (attr_default l ''href'' []) ''javascript:'' \<or>
       startswith (attr_default l ''href'' []) ''#'' \<or>
       startswith (attr_default l ''href'' []) ''mailto:'' \<longrightarrow> \<not> link_selected l)"
proof -
  have "app_href ''https://site.example/app'' ''/about'' = ''https://site.example/app/about''"
    by (simp add: app_href_def startswith_def lstrip_slash_def)
  then show ?thesis
    by (auto simp: nav_links_app_map nav_links_t18_map app_href_def link_selected_def)
qed

theorem link_normalization_witness:
  "nav_links_app ''https://site.example/app'' (select_a_href links_example) =
     [(''About'', ''https://site.example/app/about''), (''Other'', ''https://other.example/x'')] \<and>
   nav_links_t18 (select_a_href links_example) =
     [(''About'', ''/about''), (''Other'', ''https://other.example/x'')] \<and>
   startswith ''https://other.example/x'' ''http'' \<and>
   app_href ''https://site.example/app'' ''https://other.example/x'' = ''https://other.example/x'' \<and>
   startswith ''#top'' ''#'' \<and> \<not> link_selected (anchor ''#top'' ''Top'')"
proof -
  have sel: "select_a_href links_example =
     [anchor ''/about'' ''About'', anchor ''https://other.example/x'' ''Other'',
      anchor ''javascript:void(0)'' ''Menu'', anchor ''#top'' ''Top'',
      anchor ''mailto:ops@site.example'' ''Mail'', anchor ''/empty'' ''  '']"
    by (simp add: select_a_href_def links_example_def find_all_def anchor_def)
  have flt: "filter link_selected (select_a_href links_example) =
     [anchor ''/about'' ''About'', anchor ''https://other.example/x'' ''Other'']"
    unfolding sel
    by (simp add: link_selected_def anchor_def attr_default_def get_text_strip_def strip_def
        isspace_def startswith_def)
  have tx: "get_text_strip (anchor ''/about'' ''About'') = ''About''"
    "get_text_strip (anchor ''https://other.example/x'' ''Other'') = ''Other''"
    by (simp_all add: anchor_def get_text_strip_def strip_def isspace_def)
  have hr: "attr_default (anchor ''/about'' ''About'') ''href'' [] = ''/about''"
    "attr_default (anchor ''https://other.example/x'' ''Other'') ''href'' [] = ''https://other.example/x''"
    "attr_default (anchor ''#top'' ''Top'') ''href'' [] = ''#top''"
    by (simp_all add: anchor_def attr_default_def)
  have sw: "startswith ''https://other.example/x'' ''http''" "startswith ''#top'' ''#''"
    by (simp_all add: startswith_def)
  have mem: "anchor ''#top'' ''Top'' \<in> set (select_a_href links_example)"
    by (simp add: sel)
  note inst = link_normalization [of "''https://site.example/app''" "select_a_href links_example"
      "''https://other.example/x''"]
  from inst have a: "nav_links_app ''https://site.example/app'' (select_a_href links_example) =
     [(''About'', ''https://site.example/app/about''), (''Other'', ''https://other.example/x'')]"
    using sw(1) by (simp add: flt tx hr)
  from inst have t: "nav_links_t18 (select_a_href links_example) =
     [(''About'', ''/about''), (''Other'', ''https://other.example/x'')]"
    by (simp add: flt tx hr)
  from inst sw(1) have h: "app_href ''https://site.example/app'' ''https://other.example/x'' = ''https://other.example/x''"
    by blast
  from inst mem sw(2) hr(3) have n: "\<not> link_selected (anchor ''#top'' ''Top'')"
    by auto
  from a t sw h n show ?thesis by blast
qed

text \<open>The claim as the specification states it fails twice: \<^verbatim>\<open>scrape_t18\<close> leaves the
  relative target \<^verbatim>\<open>/about\<close> as it is, and \<^verbatim>\<open>do_scrape\<close> rewrites the absolute target
  \<^verbatim>\<open>ftp://files.example/x\<close>, which does not start with \<^verbatim>\<open>http\<close>.\<close>

theorem link_normalization_counterexample:
  "nav_links_t18 [anchor ''/about'' ''About''] = [(''About'', ''/about'')] \<and>
   nav_links_app ''https://site.example/app'' [anchor ''ftp://files.example/x'' ''Files''] =
     [(''Files'', ''https://site.example/app/ftp://files.example/x'')]"
  by (simp add: anchor_def attr_default_def get_text_strip_def strip_def isspace_def
      excluded_scheme_def startswith_def lstrip_slash_def)


section \<open>Login classification\<close>

lemma find_first_None: "find_first p n = None \<longleftrightarrow> \<not> (\<exists>x \<in> set (descendants n). p x)"
proof -
  have "find_first p n = None \<longleftrightarrow> filter p (descendants n) = []"
    by (simp add: find_first_def find_all_def split: list.splits)
  then show ?thesis by (simp add: filter_empty_conv)
qed

lemma find_login_form_None:
  "find_login_form sp = None \<longleftrightarrow> \<not> has_login_form_id sp \<and> \<not> has_password_input sp"
proof (cases "find_first (\<lambda>n. is_tag ''form'' n \<and> attr_get n ''id'' = Some ''loginForm'') sp")
  case None
  then have nf: "\<not> has_login_form_id sp"
    unfolding find_first_None has_login_form_id_def by simp
  from None have "find_login_form sp =
      find_first (\<lambda>n. is_tag ''input'' n \<and> attr_get n ''type'' = Some ''password'') sp"
    by (simp add: find_login_form_def)
  then have "find_login_form sp = None \<longleftrightarrow> \<not> has_password_input sp"
    unfolding has_password_input_def by (simp only: find_first_None)
  with nf show ?thesis by simp
next
  case (Some f)
  then have "find_first (\<lambda>n. is_tag ''form'' n \<and> attr_get n ''id'' = Some ''loginForm'') sp \<noteq> None"
    by simp
  then have "has_login_form_id sp"
    unfolding find_first_None has_login_form_id_def by simp
  with Some show ?thesis by (simp add: find_login_form_def)
qed

lemma find_error_class_None: "find_error_class sp = None \<longleftrightarrow> \<not> has_error_class sp"
  by (simp add: find_error_class_def find_first_None has_error_class_def)

lemma first_error_text_None: "first_error_text es = None \<longleftrightarrow> (\<forall>e \<in> set es. e = None)"
  by (induction es rule: first_error_text.induct) auto

lemma error_selectors_None:
  "first_error_text (error_selectors sp) = None \<longleftrightarrow> \<not> has_error_element sp"
  unfolding first_error_text_None
  by (auto simp: error_selectors_def find_first_None has_error_element_def)

lemma has_error_class_element: "has_error_class sp \<Longrightarrow> has_error_element sp"
  by (auto simp: has_error_class_def has_error_element_def)

lemma login_result:
  assumes "fst (post net path (login_form_data u pw uf pf ex) s) = Inr (Some pg)"
    and "body_text pg \<noteq> []"
  shows "fst (login net path u pw uf pf ex s) =
           Inr (find_login_form (soup pg) = None \<and> find_error_class (soup pg) = None)"
  using assms
  by (cases "post net path (login_form_data u pw uf pf ex) s") (simp add: login_def Let_def)

lemma login_with_details_result:
  assumes "fst (post net path (login_form_data u pw uf pf ex) s) = Inr (Some pg)"
    and "body_text pg \<noteq> []"
  shows "fst (login_with_details net path u pw uf pf ex s) =
           Inr (if find_login_form (soup pg) = None \<and> first_error_text (error_selectors (soup pg)) = None
                then \<lparr>success = True, error = None\<rparr>
                else \<lparr>success = False, error = Some (failure_message (soup pg))\<rparr>)"
  using assms
  by (cases "post net path (login_form_data u pw uf pf ex) s")
     (simp add: login_with_details_def Let_def failure_message_def)

text \<open>
  Claim C1, as the code has it. For a non-empty response page of the credential POST,
  \<^verbatim>\<open>login_with_details\<close> reports success exactly when the page has no input of type
  \<open>password\<close>, no form with the id \<open>loginForm\<close> and no element found by one of its error
  selectors (a class or an id that mentions \<open>error\<close>, \<^verbatim>\<open>div.alert\<close>, \<^verbatim>\<open>span.error\<close>,
  \<^verbatim>\<open>p.error\<close>); a failure carries the stripped text of the element found by the first
  selector that matches, or the generic message when there is none or the text is empty.
  \<^verbatim>\<open>login\<close> returns \<open>False\<close> whenever the page has a password input, a form with the id
  \<open>loginForm\<close> or an element whose class mentions \<open>error\<close>, and \<open>True\<close> when the page has
  none of the indicators above. So a page that still has a password input is a failure
  for both.
\<close>

theorem login_classification:
  assumes "fst (post net path (login_form_data u pw uf pf ex) s) = Inr (Some pg)"
    and "body_text pg \<noteq> []"
  shows "(\<exists>d. fst (login_with_details net path u pw uf pf ex s) = Inr d \<and>
            (success d \<longleftrightarrow> \<not> has_password_input (soup pg) \<and> \<not> has_login_form_id (soup pg) \<and>
                              \<not> has_error_element (soup pg)) \<and>
            (\<not> success d \<longrightarrow> error d = Some (failure_message (soup pg)))) \<and>
         (\<exists>b. fst (login net path u pw uf pf ex s) = Inr b \<and>
            (has_password_input (soup pg) \<or> has_login_form_id (soup pg) \<or> has_error_class (soup pg)
               \<longrightarrow> \<not> b) \<and>
            (\<not> has_password_input (soup pg) \<and> \<not> has_login_form_id (soup pg) \<and>
             \<not> has_error_element (soup pg) \<longrightarrow> b))"
proof (intro conjI)
  show "\<exists>d. fst (login_with_details net path u pw uf pf ex s) = Inr d \<and>
            (success d \<longleftrightarrow> \<not> has_password_input (soup pg) \<and> \<not> has_login_form_id (soup pg) \<and>
                              \<not> has_error_element (soup pg)) \<and>
            (\<not> success d \<longrightarrow> error d = Some (failure_message (soup pg)))"
    unfolding login_with_details_result [OF assms]
    by (auto simp: find_login_form_None error_selectors_None)
next
  show "\<exists>b. fst (login net path u pw uf pf ex s) = Inr b \<and>
            (has_password_input (soup pg) \<or> has_login_form_id (soup pg) \<or> has_error_class (soup pg)
               \<longrightarrow> \<not> b) \<and>
            (\<not> has_password_input (soup pg) \<and> \<not> has_login_form_id (soup pg) \<and>
             \<not> has_error_element (soup pg) \<longrightarrow> b)"
    unfolding login_result [OF assms]
    using has_error_class_element [of "soup pg"]
    by (auto simp: find_login_form_None find_error_class_None)
qed

lemma post_serve: "fst (post (serve pg) path d s) = Inr (Some pg)"
  by (simp add: post_result serve_def text_or_none_def raise_for_status_def)

lemma serve_login_result:
  "body_text pg \<noteq> [] \<Longrightarrow> fst (login (serve pg) path u pw uf pf ex s) =
     Inr (find_login_form (soup pg) = None \<and> find_error_class (soup pg) = None)"
  by (rule login_result [OF post_serve])

lemma serve_login_with_details_result:
  "body_text pg \<noteq> [] \<Longrightarrow> fst (login_with_details (serve pg) path u pw uf pf ex s) =
     Inr (if find_login_form (soup pg) = None \<and> first_error_text (error_selectors (soup pg)) = None
          then \<lparr>success = True, error = None\<rparr>
          else \<lparr>success = False, error = Some (failure_message (soup pg))\<rparr>)"
  by (rule login_with_details_result [OF post_serve])

theorem login_classification_witness:
  "fst (post (serve password_page) ''j_security_check''
          (login_form_data ''user'' ''secret'' ''j_username'' ''j_password'' None) site) =
     Inr (Some password_page) \<and>
   body_text password_page \<noteq> [] \<and>
   has_password_input (soup password_page) \<and>
   fst (login (serve password_page) ''j_security_check'' ''user'' ''secret''
          ''j_username'' ''j_password'' None site) = Inr False \<and>
   (\<exists>d. fst (login_with_details (serve password_page) ''j_security_check'' ''user'' ''secret''
          ''j_username'' ''j_password'' None site) = Inr d \<and> \<not> success d \<and>
        error d = Some generic_login_error)"
proof -
  have p: "fst (post (serve password_page) ''j_security_check''
          (login_form_data ''user'' ''secret'' ''j_username'' ''j_password'' None) site) =
     Inr (Some password_page)"
    by (rule post_serve)
  have b: "body_text password_page \<noteq> []"
    by (simp add: password_page_def)
  have h: "has_password_input (soup password_page)"
    by (simp add: password_page_def has_password_input_def)
  have m: "failure_message (soup password_page) = generic_login_error"
    by (simp add: password_page_def failure_message_def error_selectors_def find_first_def
        find_all_def class_matches_def class_tokens_def id_matches_def)
  from login_classification [OF p b] h
  obtain d bb where
    d: "fst (login_with_details (serve password_page) ''j_security_check'' ''user'' ''secret''
          ''j_username'' ''j_password'' None site) = Inr d" "\<not> success d"
       "error d = Some (failure_message (soup password_page))"
    and bb: "fst (login (serve password_page) ''j_security_check'' ''user'' ''secret''
          ''j_username'' ''j_password'' None site) = Inr bb" "\<not> bb"
    by blast
  from bb have l: "fst (login (serve password_page) ''j_security_check'' ''user'' ''secret''
          ''j_username'' ''j_password'' None site) = Inr False"
    by simp
  from d m have "\<exists>d. fst (login_with_details (serve password_page) ''j_security_check'' ''user'' ''secret''
          ''j_username'' ''j_password'' None site) = Inr d \<and> \<not> success d \<and>
        error d = Some generic_login_error"
    by auto
  with p b h l show ?thesis by blast
qed

text \<open>The claim as the specification states it fails: a response page with neither a
  password input nor an error element, but with a form whose id is \<open>loginForm\<close>, is a
  failure for both login functions.\<close>

theorem login_classification_counterexample:
  "body_text login_form_id_page \<noteq> [] \<and>
   \<not> has_password_input (soup login_form_id_page) \<and>
   \<not> has_error_element (soup login_form_id_page) \<and>
   fst (login (serve login_form_id_page) ''j_security_check'' ''user'' ''secret''
          ''j_username'' ''j_password'' None site) = Inr False \<and>
   fst (login_with_details (serve login_form_id_page) ''j_security_check'' ''user'' ''secret''
          ''j_username'' ''j_password'' None site) =
     Inr \<lparr>success = False, error = Some generic_login_error\<rparr>"
proof -
  have b: "body_text login_form_id_page \<noteq> []"
    by (simp add: login_form_id_page_def)
  have np: "\<not> has_password_input (soup login_form_id_page)"
    by (simp add: login_form_id_page_def has_password_input_def)
  have ne: "\<not> has_error_element (soup login_form_id_page)"
    by (simp add: login_form_id_page_def has_error_element_def class_matches_def
        class_tokens_def id_matches_def mentions_error_def lower_def lower_char_def startswith_def)
  have lf: "find_login_form (soup login_form_id_page) \<noteq> None"
    by (simp add: login_form_id_page_def find_login_form_def find_first_def find_all_def)
  have m: "failure_message (soup login_form_id_page) = generic_login_error"
    using ne by (simp add: failure_message_def error_selectors_None [symmetric])
  from b np ne lf m show ?thesis
    by (simp add: serve_login_result serve_login_with_details_result)
qed


section \<open>The rate limiter\<close>

lemma refill_tokens_le_burst: "tokens (refill_tokens now l) \<le> burst (refill_tokens now l)"
  by (simp add: refill_tokens_def Let_def)

lemma refill_tokens_fields:
  "rate (refill_tokens now l) = rate l" "burst (refill_tokens now l) = burst l"
  "last_update (refill_tokens now l) = now"
  by (simp_all add: refill_tokens_def Let_def)

lemma refills_le_burst: "ts \<noteq> [] \<Longrightarrow> tokens (refills ts l) \<le> burst (refills ts l)"
proof (induction ts arbitrary: l)
  case Nil
  then show ?case by simp
next
  case (Cons t ts)
  show ?case
  proof (cases ts)
    case Nil
    then show ?thesis by (simp add: refill_tokens_le_burst)
  next
    case (Cons u us)
    with Cons.IH [of "refill_tokens t l"] show ?thesis by simp
  qed
qed

lemma wait_for_token_success:
  "wait_for_token ts l = Some (Inr l') \<Longrightarrow>
     \<exists>k < length ts.
        1 \<le> tokens (refills (take (Suc k) ts) l) \<and>
        l' = (refills (take (Suc k) ts) l)\<lparr>tokens := tokens (refills (take (Suc k) ts) l) - 1\<rparr> \<and>
        (\<forall>j < k. tokens (refills (take (Suc j) ts) l) < 1)"
proof (induction ts arbitrary: l)
  case Nil
  then show ?case by simp
next
  case (Cons now ts)
  let ?l1 = "refill_tokens now l"
  show ?case
  proof (cases "1 \<le> tokens ?l1")
    case True
    with Cons.prems have "l' = ?l1\<lparr>tokens := tokens ?l1 - 1\<rparr>"
      by (simp add: Let_def)
    with True have "0 < length (now # ts) \<and>
        1 \<le> tokens (refills (take (Suc 0) (now # ts)) l) \<and>
        l' = (refills (take (Suc 0) (now # ts)) l)\<lparr>tokens := tokens (refills (take (Suc 0) (now # ts)) l) - 1\<rparr> \<and>
        (\<forall>j < 0. tokens (refills (take (Suc j) (now # ts)) l) < 1)"
      by simp
    then show ?thesis by blast
  next
    case False
    with Cons.prems have rec: "wait_for_token ts ?l1 = Some (Inr l')"
      by (simp add: Let_def split: if_splits)
    from Cons.IH [OF rec] obtain k where k: "k < length ts"
      "1 \<le> tokens (refills (take (Suc k) ts) ?l1)"
      "l' = (refills (take (Suc k) ts) ?l1)\<lparr>tokens := tokens (refills (take (Suc k) ts) ?l1) - 1\<rparr>"
      "\<forall>j < k. tokens (refills (take (Suc j) ts) ?l1) < 1"
      by blast
    have early: "\<forall>j < Suc k. tokens (refills (take (Suc j) (now # ts)) l) < 1"
    proof (intro allI impI)
      fix j assume "j < Suc k"
      show "tokens (refills (take (Suc j) (now # ts)) l) < 1"
      proof (cases j)
        case 0
        with False show ?thesis by simp
      next
        case (Suc i)
        with \<open>j < Suc k\<close> k(4) show ?thesis by simp
      qed
    qed
    from k early have "Suc k < length (now # ts) \<and>
        1 \<le> tokens (refills (take (Suc (Suc k)) (now # ts)) l) \<and>
        l' = (refills (take (Suc (Suc k)) (now # ts)) l)\<lparr>tokens := tokens (refills (take (Suc (Suc k)) (now # ts)) l) - 1\<rparr> \<and>
        (\<forall>j < Suc k. tokens (refills (take (Suc j) (now # ts)) l) < 1)"
      by simp
    then show ?thesis by blast
  qed
qed

text \<open>With a positive rate and a burst of at least one, an attempt that finds no token
  is followed by a successful one as soon as the clock has advanced by the computed
  waiting time.\<close>

lemma acquire_returns:
  assumes "0 < rate l" and "1 \<le> burst l"
    and "tokens (refill_tokens t1 l) < 1"
    and "t1 + (1 - tokens (refill_tokens t1 l)) / rate l \<le> t2"
  shows "\<exists>l'. acquire (t1 # t2 # ts) l = Some (Inr l')"
proof -
  let ?l1 = "refill_tokens t1 l"
  from assms(4) have "(1 - tokens ?l1) / rate l \<le> t2 - t1" by simp
  with assms(1) have "1 - tokens ?l1 \<le> (t2 - t1) * rate l"
    by (simp add: pos_divide_le_eq)
  then have "1 \<le> tokens ?l1 + (t2 - last_update ?l1) * rate ?l1"
    by (simp add: refill_tokens_fields)
  with assms(2) have "1 \<le> tokens (refill_tokens t2 ?l1)"
    by (simp add: refill_tokens_def [of t2] Let_def refill_tokens_fields)
  with assms(1,3) show ?thesis
    by (simp add: acquire_def Let_def refill_tokens_fields)
qed

text \<open>
  Claim C8. Every attempt of \<^verbatim>\<open>acquire\<close> first refills the bucket to
  \<open>min burst (tokens + elapsed * rate)\<close>, the time elapsed being measured from the last
  refill, which becomes the time of this attempt. An \<^verbatim>\<open>acquire\<close> that returns did so at
  the first attempt whose refill found at least one token, and it took exactly one token
  from that bucket. The token count is at most \<open>burst\<close> initially, after every refill and
  after every \<^verbatim>\<open>acquire\<close>.
\<close>

theorem rate_limiter_token_bucket:
  "tokens (refill_tokens now l) = min (burst l) (tokens l + (now - last_update l) * rate l) \<and>
   last_update (refill_tokens now l) = now \<and>
   tokens (refill_tokens now l) \<le> burst (refill_tokens now l) \<and>
   tokens (RateLimiter r b now) \<le> burst (RateLimiter r b now) \<and>
   (\<forall>l'. acquire ts l = Some (Inr l') \<longrightarrow>
      tokens l' \<le> burst l' \<and>
      (\<exists>k < length ts.
         1 \<le> tokens (refills (take (Suc k) ts) l) \<and>
         l' = (refills (take (Suc k) ts) l)\<lparr>tokens := tokens (refills (take (Suc k) ts) l) - 1\<rparr> \<and>
         (\<forall>j < k. tokens (refills (take (Suc j) ts) l) < 1)))"
proof -
  have a: "\<forall>l'. acquire ts l = Some (Inr l') \<longrightarrow>
      tokens l' \<le> burst l' \<and>
      (\<exists>k < length ts.
         1 \<le> tokens (refills (take (Suc k) ts) l) \<and>
         l' = (refills (take (Suc k) ts) l)\<lparr>tokens := tokens (refills (take (Suc k) ts) l) - 1\<rparr> \<and>
         (\<forall>j < k. tokens (refills (take (Suc j) ts) l) < 1))"
  proof (intro allI impI)
    fix l' assume "acquire ts l = Some (Inr l')"
    then have w: "wait_for_token ts l = Some (Inr l')" by (simp add: acquire_def)
    from wait_for_token_success [OF w] obtain k where k: "k < length ts"
      "1 \<le> tokens (refills (take (Suc k) ts) l)"
      "l' = (refills (take (Suc k) ts) l)\<lparr>tokens := tokens (refills (take (Suc k) ts) l) - 1\<rparr>"
      "\<forall>j < k. tokens (refills (take (Suc j) ts) l) < 1"
      by blast
    from k(1) have "take (Suc k) ts \<noteq> []" by (cases ts) auto
    from refills_le_burst [OF this, of l] k(3) have "tokens l' \<le> burst l'" by simp
    with k show "tokens l' \<le> burst l' \<and>
      (\<exists>k < length ts.
         1 \<le> tokens (refills (take (Suc k) ts) l) \<and>
         l' = (refills (take (Suc k) ts) l)\<lparr>tokens := tokens (refills (take (Suc k) ts) l) - 1\<rparr> \<and>
         (\<forall>j < k. tokens (refills (take (Suc j) ts) l) < 1))"
      by blast
  qed
  have b: "tokens (refill_tokens now l) = min (burst l) (tokens l + (now - last_update l) * rate l)"
    by (simp add: refill_tokens_def Let_def)
  have c: "tokens (RateLimiter r b now) \<le> burst (RateLimiter r b now)"
    by (simp add: RateLimiter_def)
  from a b c refill_tokens_le_burst [of now l] refill_tokens_fields(3) [of now l]
  show ?thesis by blast
qed

text \<open>A limiter of two requests per second and burst one: the first \<^verbatim>\<open>acquire\<close> at time
  0 succeeds at once; the second finds the bucket empty at time 0 and succeeds at its
  next attempt, half a second later.\<close>

theorem rate_limiter_token_bucket_witness:
  "acquire [0] (RateLimiter 2 1 0) = Some (Inr \<lparr>rate = 2, burst = 1, tokens = 0, last_update = 0\<rparr>) \<and>
   acquire [0, 1/2] \<lparr>rate = 2, burst = 1, tokens = 0, last_update = 0\<rparr> =
     Some (Inr \<lparr>rate = 2, burst = 1, tokens = 0, last_update = 1/2\<rparr>) \<and>
   tokens \<lparr>rate = 2, burst = 1, tokens = 0, last_update = 1/2\<rparr>
     \<le> burst \<lparr>rate = 2, burst = 1, tokens = 0, last_update = 1/2\<rparr> \<and>
   (\<exists>k < length [0, 1/2 :: real].
      1 \<le> tokens (refills (take (Suc k) [0, 1/2]) \<lparr>rate = 2, burst = 1, tokens = 0, last_update = 0\<rparr>))"
proof -
  have a1: "acquire [0] (RateLimiter 2 1 0) =
      Some (Inr \<lparr>rate = 2, burst = 1, tokens = 0, last_update = 0\<rparr>)"
    by (simp add: acquire_def RateLimiter_def refill_tokens_def Let_def)
  have a2: "acquire [0, 1/2] \<lparr>rate = 2, burst = 1, tokens = 0, last_update = 0\<rparr> =
     Some (Inr \<lparr>rate = 2, burst = 1, tokens = 0, last_update = 1/2\<rparr>)"
    by (simp add: acquire_def refill_tokens_def Let_def)
  from rate_limiter_token_bucket [of 0 "\<lparr>rate = 2, burst = 1, tokens = 0, last_update = 0\<rparr>" 2 1 "[0, 1/2]"] a2
  have "tokens \<lparr>rate = 2, burst = 1, tokens = 0, last_update = 1/2\<rparr>
     \<le> burst \<lparr>rate = 2, burst = 1, tokens = 0, last_update = 1/2\<rparr> \<and>
   (\<exists>k < length [0, 1/2 :: real].
      1 \<le> tokens (refills (take (Suc k) [0, 1/2]) \<lparr>rate = 2, burst = 1, tokens = 0, last_update = 0\<rparr>))"
    by blast
  with a1 a2 show ?thesis by blast
qed


section \<open>The ETSLink orchestrator\<close>














section \<open>Failed authentication and cleanup\<close>

lemma get_state:
  "snd (get net path s) = (get_client s)\<lparr>events := events (get_client s) @
      [Sent (GET (if path \<noteq> [] then session_url (get_client s) path else base_url (get_client s)))]\<rparr>"
  by (simp add: get_def send_def Let_def)

lemma post_state:
  "snd (post net path d s) = (get_client s)\<lparr>events := events (get_client s) @
      [Sent (POST (session_url (get_client s) path) d)]\<rparr>"
  by (simp add: post_def send_def Let_def)

lemma login_events:
  "events (snd (login net path u pw uf pf ex s)) = events (snd (post net path (login_form_data u pw uf pf ex) s)) \<and>
   client (snd (login net path u pw uf pf ex s)) = client (snd (post net path (login_form_data u pw uf pf ex) s))"
  by (cases "post net path (login_form_data u pw uf pf ex) s")
     (auto simp: login_def Let_def split: sum.splits option.splits)

lemma get_login_form_fields_state:
  "snd (get_login_form_fields net path s) = snd (get net path s)"
  by (cases "get net path s")
     (auto simp: get_login_form_fields_def split: sum.splits option.splits)

lemma fresh_get_client:
  "\<not> client s \<Longrightarrow> events s = [] \<Longrightarrow> open_once (get_client s) \<and> events (get_client s) = [ClientCreated]"
  by (simp add: open_once_def get_client_def)

lemma open_once_get_client: "open_once s \<Longrightarrow> get_client s = s"
  by (simp add: open_once_def get_client_def)

lemma open_once_sent: "open_once s \<Longrightarrow> open_once (s\<lparr>events := events s @ [Sent rq]\<rparr>)"
  by (simp add: open_once_def)

lemma open_once_get: "open_once s \<Longrightarrow> open_once (snd (get net path s))"
  by (simp add: get_state open_once_get_client open_once_sent)

lemma open_once_post: "open_once s \<Longrightarrow> open_once (snd (post net path d s))"
  by (simp add: post_state open_once_get_client open_once_sent)

lemma open_once_login: "open_once s \<Longrightarrow> open_once (snd (login net path u pw uf pf ex s))"
  using open_once_post [of s net path "login_form_data u pw uf pf ex"]
    login_events [of net path u pw uf pf ex s]
  by (simp add: open_once_def)

lemma open_once_fresh_get:
  "\<not> client s \<Longrightarrow> events s = [] \<Longrightarrow> open_once (snd (get net path s))"
proof -
  assume "\<not> client s" "events s = []"
  then have "open_once (get_client s)" using fresh_get_client by blast
  from open_once_sent [OF this] show ?thesis
    unfolding get_state by blast
qed

lemma close_open_once:
  "open_once s \<Longrightarrow> \<not> client (close s) \<and> last (events (close s)) = ClientClosed \<and>
     length (filter (\<lambda>e. e = ClientCreated) (events (close s))) = 1 \<and>
     length (filter (\<lambda>e. e = ClientClosed) (events (close s))) = 1"
  by (simp add: open_once_def close_def)

lemma log_scraper: "scraper (log ty msg r) = scraper r"
  by (simp add: log_def)

lemma fetch_dashboard_open:
  "open_once (scraper r) \<Longrightarrow> open_once (scraper (snd (fetch_dashboard net storage r)))"
proof -
  assume o: "open_once (scraper r)"
  obtain dh s1 where g: "get net ''default.do'' (scraper r) = (dh, s1)"
    by (cases "get net ''default.do'' (scraper r)")
  with open_once_get [OF o, of net "''default.do''"] have "open_once s1" by simp
  with g show ?thesis
    by (auto simp: fetch_dashboard_def Let_def log_def split: sum.splits option.splits)
qed

lemma do_scrape_try_open:
  assumes "\<not> client (scraper r)" and "events (scraper r) = []"
  shows "open_once (scraper (snd (do_scrape_try net storage u p r)))"
proof -
  obtain fi s1 where g: "get_login_form_fields net ''default.do'' (scraper r) = (fi, s1)"
    by (cases "get_login_form_fields net ''default.do'' (scraper r)")
  have "s1 = snd (get net ''default.do'' (scraper r))"
    using g get_login_form_fields_state [of net "''default.do''" "scraper r"] by simp
  with open_once_fresh_get [OF assms] have o1: "open_once s1" by simp
  show ?thesis
  proof (cases fi)
    case (Inl e)
    with g o1 show ?thesis by (simp add: do_scrape_try_def Let_def log_def)
  next
    case (Inr f)
    obtain lr s2 where l: "login net (form_login_path f) u p ''j_username'' ''j_password''
        (Some (form_hidden_fields f)) s1 = (lr, s2)"
      by (cases "login net (form_login_path f) u p ''j_username'' ''j_password''
        (Some (form_hidden_fields f)) s1")
    with open_once_login [OF o1, of net "form_login_path f" u p "''j_username''" "''j_password''"
        "Some (form_hidden_fields f)"]
    have o2: "open_once s2" by simp
    show ?thesis
    proof (cases lr)
      case (Inl e)
      with g Inr l o2 show ?thesis by (simp add: do_scrape_try_def Let_def log_def)
    next
      case ok: (Inr b)
      show ?thesis
      proof (cases b)
        case False
        with g Inr l ok o2 show ?thesis by (simp add: do_scrape_try_def Let_def log_def)
      next
        case True
        let ?r4 = "(log Info (''Logging in as '' @ u @ ''...'')
                     (log Success ''Found login form''
                        ((log Info ''Connecting to T18 Tideworks...'' r)\<lparr>scraper := s1\<rparr>)))\<lparr>scraper := s2\<rparr>"
        have "do_scrape_try net storage u p r = fetch_dashboard net storage ?r4"
          using g Inr l ok True by (simp add: do_scrape_try_def Let_def log_def)
        moreover have "open_once (scraper ?r4)" using o2 by simp
        ultimately show ?thesis using fetch_dashboard_open by simp
      qed
    qed
  qed
qed

lemma do_scrape_cleanup:
  "\<not> client (scraper (do_scrape net storage u p)) \<and>
   last (events (scraper (do_scrape net storage u p))) = ClientClosed \<and>
   length (filter (\<lambda>e. e = ClientCreated) (events (scraper (do_scrape net storage u p)))) = 1 \<and>
   length (filter (\<lambda>e. e = ClientClosed) (events (scraper (do_scrape net storage u p)))) = 1"
proof -
  let ?r0 = "\<lparr>scraper = SessionScraper t18_base_url None None, logs = [],
                 run_success = False, run_data = initial_data\<rparr>"
  have fresh: "\<not> client (scraper ?r0)" "events (scraper ?r0) = []"
    by (simp_all add: SessionScraper_def)
  obtain raised r1 where t: "do_scrape_try net storage u p ?r0 = (raised, r1)"
    by (cases "do_scrape_try net storage u p ?r0")
  with do_scrape_try_open [OF fresh, of net storage u p] have o: "open_once (scraper r1)" by simp
  have "scraper (do_scrape net storage u p) = close (scraper r1)"
    using t by (simp add: do_scrape_def Let_def log_def split: option.splits)
  with close_open_once [OF o] show ?thesis by simp
qed


lemma fresh_get_events:
  assumes "\<not> client s" and "events s = []"
  shows "\<exists>rq. events (snd (get net path s)) = [ClientCreated, Sent (GET rq)]"
  using assms by (simp add: get_state get_client_def)

lemma open_post_events:
  assumes "open_once s"
  shows "\<exists>url d. events (snd (post net path fd s)) = events s @ [Sent (POST url d)]"
  using assms by (simp add: post_state open_once_get_client)

lemma close_events: "client s \<Longrightarrow> events (close s) = events s @ [ClientClosed]"
  by (simp add: close_def)

lemma do_scrape_login_failed:
  assumes "do_scrape_login net u p \<noteq> Inr True"
  shows "\<not> run_success (do_scrape net storage u p) \<and>
         run_data (do_scrape net storage u p) = initial_data \<and>
         error_entries (logs (do_scrape net storage u p)) =
           [login_failure_entry (do_scrape_login net u p)] \<and>
         length (filter is_get (events (scraper (do_scrape net storage u p)))) = 1 \<and>
         length (filter is_post (events (scraper (do_scrape net storage u p)))) \<le> 1"
proof -
  let ?s0 = "SessionScraper t18_base_url None None"
  have fresh: "\<not> client ?s0" "events ?s0 = []"
    by (simp_all add: SessionScraper_def)
  obtain fi s1 where g: "get_login_form_fields net ''default.do'' ?s0 = (fi, s1)"
    by (cases "get_login_form_fields net ''default.do'' ?s0")
  have s1: "s1 = snd (get net ''default.do'' ?s0)"
    using g get_login_form_fields_state [of net "''default.do''" ?s0] by simp
  with open_once_fresh_get [OF fresh] have o1: "open_once s1" by simp
  from fresh_get_events [OF fresh, of net "''default.do''"] s1
  obtain rq where e1: "events s1 = [ClientCreated, Sent (GET rq)]" by auto
  from o1 have c1: "client s1" by (simp add: open_once_def)
  show ?thesis
  proof (cases fi)
    case (Inl e)
    then have dl: "do_scrape_login net u p = Inl e"
      using g by (simp add: do_scrape_login_def)
    have res: "do_scrape net storage u p =
        \<lparr>scraper = close s1,
         logs = [(Info, ''Connecting to T18 Tideworks...''), (Error, ''Error: '' @ str_exn e)],
         run_success = False, run_data = initial_data\<rparr>"
      using g Inl by (simp add: do_scrape_def do_scrape_try_def Let_def log_def)
    show ?thesis
      unfolding res dl using e1 c1
      by (simp add: error_entries_def login_failure_entry_def close_events)
  next
    case (Inr f)
    obtain lr s2 where l: "login net (form_login_path f) u p ''j_username'' ''j_password''
        (Some (form_hidden_fields f)) s1 = (lr, s2)"
      by (cases "login net (form_login_path f) u p ''j_username'' ''j_password''
        (Some (form_hidden_fields f)) s1")
    with open_once_login [OF o1, of net "form_login_path f" u p "''j_username''" "''j_password''"
        "Some (form_hidden_fields f)"]
    have o2: "open_once s2" by simp
    then have c2: "client s2" by (simp add: open_once_def)
    from open_post_events [OF o1, of net "form_login_path f"
        "login_form_data u p ''j_username'' ''j_password'' (Some (form_hidden_fields f))"]
      login_events [of net "form_login_path f" u p "''j_username''" "''j_password''"
        "Some (form_hidden_fields f)" s1] l
    obtain url d where e2: "events s2 = events s1 @ [Sent (POST url d)]" by auto
    have dl: "do_scrape_login net u p = lr"
      using g Inr l by (simp add: do_scrape_login_def)
    show ?thesis
    proof (cases lr)
      case (Inl e)
      have res: "do_scrape net storage u p =
        \<lparr>scraper = close s2,
         logs = [(Info, ''Connecting to T18 Tideworks...''), (Success, ''Found login form''),
                 (Info, ''Logging in as '' @ u @ ''...''), (Error, ''Error: '' @ str_exn e)],
         run_success = False, run_data = initial_data\<rparr>"
        using g Inr l Inl by (simp add: do_scrape_def do_scrape_try_def Let_def log_def)
      show ?thesis
        unfolding res dl Inl using e1 e2 c2
        by (simp add: error_entries_def login_failure_entry_def close_events)
    next
      case ok: (Inr b)
      with assms dl have "\<not> b" by simp
      have res: "do_scrape net storage u p =
        \<lparr>scraper = close s2,
         logs = [(Info, ''Connecting to T18 Tideworks...''), (Success, ''Found login form''),
                 (Info, ''Logging in as '' @ u @ ''...''),
                 (Error, ''Login failed. Check your credentials.'')],
         run_success = False, run_data = initial_data\<rparr>"
        using g Inr l ok \<open>\<not> b\<close> by (simp add: do_scrape_def do_scrape_try_def Let_def log_def)
      show ?thesis
        unfolding res dl ok using e1 e2 c2
        by (simp add: error_entries_def login_failure_entry_def close_events)
    qed
  qed
qed

lemma scrape_etslink_login_failed:
  assumes "\<not> fst (fst (ets_login lw ETSLinkScraper))"
  shows "\<not> ets_success (scrape_etslink lw browse storage locs_arg) \<and>
         locations (scrape_etslink lw browse storage locs_arg) = [] \<and>
         steps (scrape_etslink lw browse storage locs_arg) = [LoginCalled, CloseCalled] \<and>
         ets_logs (scrape_etslink lw browse storage locs_arg) =
           [(Info, ''Connecting to ETSLink...''), (Error, login_failure_message lw)]"
proof -
  obtain msg s1 where l: "ets_login lw ETSLinkScraper = ((False, msg), s1)"
    using assms by (cases "ets_login lw ETSLinkScraper") auto
  then show ?thesis
    by (simp add: scrape_etslink_def scrape_etslink_try_def Let_def ets_log_def
        login_failure_message_def)
qed

lemma locations_loop_steps:
  "CloseCalled \<notin> set (steps r) \<Longrightarrow>
     CloseCalled \<notin> set (steps (snd (locations_loop browse n i locs r)))"
proof (induction locs arbitrary: i r)
  case Nil
  then show ?case by simp
next
  case (Cons loc rest)
  show ?case
  proof (cases "scrape_location (browse i) loc (ets_scraper r)")
    case (Inl e)
    with Cons.prems show ?thesis by (simp add: Let_def ets_log_def)
  next
    case (Inr ld)
    define r4 where "r4 =
       (let r3 = r\<lparr>ets_logs := ets_logs r @ [(Info, ''Scraping '' @ loc @ '' ('' @ str_nat (i + 1) @ ''/'' @ str_nat n @ '')...'')],
                   steps := steps r @ [ScrapeCalled loc],
                   locations := AList.update loc ld (locations r)\<rparr>
        in (if \<not> has_error_key ld
            then ets_log Success (''  '' @ loc @ '': Found '' @ str_nat (length (tables_of ld)) @ '' tables'') r3
            else ets_log Error (''  '' @ loc @ '': '' @ error_of ld) r3))"
    have step: "locations_loop browse n i (loc # rest) r = locations_loop browse n (Suc i) rest r4"
      using Inr by (simp add: r4_def Let_def ets_log_def)
    have "steps r4 = steps r @ [ScrapeCalled loc]"
      by (simp add: r4_def Let_def ets_log_def)
    with Cons.prems have "CloseCalled \<notin> set (steps r4)" by simp
    from Cons.IH [OF this, of "Suc i"] step show ?thesis by simp
  qed
qed

lemma scrape_etslink_try_steps:
  "CloseCalled \<notin> set (steps (snd (scrape_etslink_try lw browse storage locs
      \<lparr>ets_scraper = ETSLinkScraper, ets_logs = [], ets_success = False,
       locations = [], steps = []\<rparr>)))"
proof -
  obtain ok msg s1 where l: "ets_login lw ETSLinkScraper = ((ok, msg), s1)"
    by (cases "ets_login lw ETSLinkScraper") auto
  show ?thesis
  proof (cases ok)
    case False
    with l show ?thesis by (simp add: scrape_etslink_try_def Let_def ets_log_def)
  next
    case True
    define r3 where "r3 = ets_log Info (''Scraping '' @ str_nat (length locs) @ '' locations...'')
       (ets_log Success ''Login successful!''
         \<lparr>ets_scraper = s1, ets_logs = [(Info, ''Connecting to ETSLink...'')],
          ets_success = False, locations = [], steps = [LoginCalled]\<rparr>)"
    have "CloseCalled \<notin> set (steps r3)" by (simp add: r3_def ets_log_def)
    from locations_loop_steps [OF this, of browse "length locs" 0 locs]
    have n: "CloseCalled \<notin> set (steps (snd (locations_loop browse (length locs) 0 locs r3)))" .
    obtain raised r4 where r4: "locations_loop browse (length locs) 0 locs r3 = (raised, r4)"
      by (cases "locations_loop browse (length locs) 0 locs r3")
    with n have "CloseCalled \<notin> set (steps r4)" by simp
    with l True r4 show ?thesis
      by (auto simp: scrape_etslink_try_def Let_def ets_log_def r3_def split: option.splits)
  qed
qed

lemma scrape_etslink_cleanup:
  "\<not> playwright (ets_scraper (scrape_etslink lw browse storage locs_arg)) \<and>
   \<not> browser (ets_scraper (scrape_etslink lw browse storage locs_arg)) \<and>
   \<not> browser_context (ets_scraper (scrape_etslink lw browse storage locs_arg)) \<and>
   \<not> browser_page (ets_scraper (scrape_etslink lw browse storage locs_arg)) \<and>
   last (steps (scrape_etslink lw browse storage locs_arg)) = CloseCalled \<and>
   length (filter (\<lambda>e. e = CloseCalled) (steps (scrape_etslink lw browse storage locs_arg))) = 1"
proof -
  let ?locs = "case locs_arg of None \<Rightarrow> map fst ETSLINK_LOCATIONS | Some ls \<Rightarrow> ls"
  let ?r0 = "\<lparr>ets_scraper = ETSLinkScraper, ets_logs = [], ets_success = False,
                locations = [], steps = []\<rparr>"
  obtain raised r1 where t: "scrape_etslink_try lw browse storage ?locs ?r0 = (raised, r1)"
    by (cases "scrape_etslink_try lw browse storage ?locs ?r0")
  with scrape_etslink_try_steps [of lw browse storage ?locs]
  have n: "CloseCalled \<notin> set (steps r1)" by simp
  then have f: "filter (\<lambda>e. e = CloseCalled) (steps r1) = []"
    by (auto simp: filter_empty_conv)
  show ?thesis
    using t f
    by (cases raised) (simp_all add: scrape_etslink_def Let_def ets_log_def ets_close_def)
qed

text \<open>
  Claim C5. A run whose login does not succeed extracts nothing and fails. In
  \<^verbatim>\<open>scrape_etslink\<close> the login is called once and the only later step is the close;
  the log holds the connecting entry and one error entry with the reason of the failure;
  no location is recorded and the success flag is false. In \<^verbatim>\<open>do_scrape\<close> the log has
  exactly one error entry (the failed login, or the exception that stopped it), the data
  stay as initialised, the success flag is false, the only GET is the one for the login
  page (the dashboard is not fetched) and at most one POST was sent.
\<close>

theorem auth_failure_aborts:
  "(\<not> fst (fst (ets_login lw ETSLinkScraper)) \<longrightarrow>
      \<not> ets_success (scrape_etslink lw browse storage locs_arg) \<and>
      locations (scrape_etslink lw browse storage locs_arg) = [] \<and>
      steps (scrape_etslink lw browse storage locs_arg) = [LoginCalled, CloseCalled] \<and>
      ets_logs (scrape_etslink lw browse storage locs_arg) =
        [(Info, ''Connecting to ETSLink...''), (Error, login_failure_message lw)]) \<and>
   (do_scrape_login net u p \<noteq> Inr True \<longrightarrow>
      \<not> run_success (do_scrape net storage u p) \<and>
      run_data (do_scrape net storage u p) = initial_data \<and>
      error_entries (logs (do_scrape net storage u p)) =
        [login_failure_entry (do_scrape_login net u p)] \<and>
      length (filter is_get (events (scraper (do_scrape net storage u p)))) = 1 \<and>
      length (filter is_post (events (scraper (do_scrape net storage u p)))) \<le> 1)"
  using scrape_etslink_login_failed [of lw browse storage locs_arg]
    do_scrape_login_failed [of net u p storage]
  by blast

theorem auth_failure_aborts_witness:
  "\<not> fst (fst (ets_login login_rejected ETSLinkScraper)) \<and>
   \<not> ets_success (scrape_etslink login_rejected browse_example None None) \<and>
   steps (scrape_etslink login_rejected browse_example None None) = [LoginCalled, CloseCalled] \<and>
   ets_logs (scrape_etslink login_rejected browse_example None None) =
     [(Info, ''Connecting to ETSLink...''),
      (Error, ''Login failed - invalid credentials or CAPTCHA required'')] \<and>
   do_scrape_login (serve password_page) ''user'' ''secret'' \<noteq> Inr True \<and>
   \<not> run_success (do_scrape (serve password_page) None ''user'' ''secret'') \<and>
   error_entries (logs (do_scrape (serve password_page) None ''user'' ''secret'')) =
     [(Error, ''Login failed. Check your credentials.'')]"
proof -
  have lr: "ets_login login_rejected ETSLinkScraper =
      ((False, ''Login failed - invalid credentials or CAPTCHA required''),
       acquire_handles 4 ETSLinkScraper)"
    by (simp add: login_rejected_def ets_login_def Let_def lower_def lower_char_def startswith_def)
  then have f: "\<not> fst (fst (ets_login login_rejected ETSLinkScraper))" by simp
  from lr have m: "login_failure_message login_rejected =
      ''Login failed - invalid credentials or CAPTCHA required''"
    by (simp add: login_failure_message_def)
  have g: "get_login_form_fields (serve password_page) ''default.do''
             (SessionScraper t18_base_url None None) =
           (Inr None, snd (get (serve password_page) ''default.do''
             (SessionScraper t18_base_url None None)))"
    using get_serve [of password_page "''default.do''" "SessionScraper t18_base_url None None"]
    by (cases "get (serve password_page) ''default.do'' (SessionScraper t18_base_url None None)")
       (simp add: get_login_form_fields_def password_page_def find_first_def find_all_def)
  have fl: "find_login_form (soup password_page) \<noteq> None"
    by (simp add: password_page_def find_login_form_def find_first_def find_all_def)
  have b: "body_text password_page \<noteq> []"
    by (simp add: password_page_def)
  have dl: "do_scrape_login (serve password_page) ''user'' ''secret'' = Inr False"
    using fl b by (simp add: do_scrape_login_def g serve_login_result)
  then have ne: "do_scrape_login (serve password_page) ''user'' ''secret'' \<noteq> Inr True" by simp
  note inst = auth_failure_aborts [where lw = login_rejected and browse = browse_example
      and storage = None and locs_arg = None and net = "serve password_page"
      and u = "''user''" and p = "''secret''"]
  from inst f m have e: "\<not> ets_success (scrape_etslink login_rejected browse_example None None)"
    "steps (scrape_etslink login_rejected browse_example None None) = [LoginCalled, CloseCalled]"
    "ets_logs (scrape_etslink login_rejected browse_example None None) =
     [(Info, ''Connecting to ETSLink...''),
      (Error, ''Login failed - invalid credentials or CAPTCHA required'')]"
    by simp_all
  from inst ne dl have d: "\<not> run_success (do_scrape (serve password_page) None ''user'' ''secret'')"
    "error_entries (logs (do_scrape (serve password_page) None ''user'' ''secret'')) =
     [(Error, ''Login failed. Check your credentials.'')]"
    by (simp_all add: login_failure_entry_def)
  from f e ne d show ?thesis by blast
qed

text \<open>
  Claim C9. Every run of an orchestrator ends with the close step, whatever happened
  before it. After \<^verbatim>\<open>do_scrape\<close> the HTTP client of the session is released: it was
  created once, closed once, and the close is the last event of the session. After
  \<^verbatim>\<open>scrape_etslink\<close> none of the four browser handles is held, and the close is the last
  step of the run and happens once.
\<close>

theorem guaranteed_cleanup:
  "\<not> client (scraper (do_scrape net storage u p)) \<and>
   last (events (scraper (do_scrape net storage u p))) = ClientClosed \<and>
   length (filter (\<lambda>e. e = ClientCreated) (events (scraper (do_scrape net storage u p)))) = 1 \<and>
   length (filter (\<lambda>e. e = ClientClosed) (events (scraper (do_scrape net storage u p)))) = 1 \<and>
   \<not> playwright (ets_scraper (scrape_etslink lw browse storage' locs_arg)) \<and>
   \<not> browser (ets_scraper (scrape_etslink lw browse storage' locs_arg)) \<and>
   \<not> browser_context (ets_scraper (scrape_etslink lw browse storage' locs_arg)) \<and>
   \<not> browser_page (ets_scraper (scrape_etslink lw browse storage' locs_arg)) \<and>
   last (steps (scrape_etslink lw browse storage' locs_arg)) = CloseCalled \<and>
   length (filter (\<lambda>e. e = CloseCalled) (steps (scrape_etslink lw browse storage' locs_arg))) = 1"
  using do_scrape_cleanup [of net storage u p] scrape_etslink_cleanup [of lw browse storage' locs_arg]
  by blast

theorem guaranteed_cleanup_witness:
  "\<not> client (scraper (do_scrape (serve password_page) None ''user'' ''secret'')) \<and>
   last (events (scraper (do_scrape (serve password_page) None ''user'' ''secret''))) = ClientClosed \<and>
   \<not> browser_page (ets_scraper (scrape_etslink login_rejected browse_example None None)) \<and>
   \<not> playwright (ets_scraper (scrape_etslink login_ok browse_example
        (Some (Exn OSError ''disk full'')) (Some [''LAX'']))) \<and>
   last (steps (scrape_etslink login_ok browse_example
        (Some (Exn OSError ''disk full'')) (Some [''LAX'']))) = CloseCalled"
  using guaranteed_cleanup [where net = "serve password_page" and storage = None
      and u = "''user''" and p = "''secret''" and lw = login_rejected
      and browse = browse_example and storage' = None and locs_arg = None]
    guaranteed_cleanup [where net = "serve password_page" and storage = None
      and u = "''user''" and p = "''secret''" and lw = login_ok
      and browse = browse_example and storage' = "Some (Exn OSError ''disk full'')"
      and locs_arg = "Some [''LAX'']"]
  by blast


end
